theory Spec2Isabelle
  imports Complex_Main "HOL-Library.Log_Nat"
begin

section \<open>Numbers of the source language\<close>

text \<open>
  The trainer is written in TypeScript, so every number is an IEEE 754 binary64 value.
  Two conventions are used throughout.

  \<^item> A quantity that only ever holds an integer (operands, counters, indices, clock
    readings in milliseconds) is an \<open>int\<close> or a \<open>nat\<close>. Sums, differences and products
    of such values are exact in binary64 as long as they stay below \<open>2 ^ 53\<close>, which
    every value of this program does by many orders of magnitude.
  \<^item> A quantity that may hold a fraction (a ratio, a percentage, a time in seconds,
    a result of \<open>Math.random()\<close>) is a \<open>real\<close> that is always a binary64 value: each
    arithmetic operation that can be inexact is the exact operation followed by
    \<open>fl\<close>, rounding to the nearest binary64 value with ties to the even significand.
    Overflow to infinity and \<open>NaN\<close> are not represented: on a random source that
    meets the contract of \<open>Math.random\<close> every divisor of the engines is positive
    and every value stays far below the largest binary64 number.
\<close>

definition pow2 :: "int \<Rightarrow> real" where
  "pow2 e = (if 0 \<le> e then 2 ^ nat e else 1 / 2 ^ nat (- e))"

text \<open>The binary exponent of a positive number: \<open>2 ^ ilog2 x \<le> x < 2 ^ (ilog2 x + 1)\<close>.\<close>

definition ilog2 :: "real \<Rightarrow> int" where
  "ilog2 x = (if 1 \<le> x then bitlen \<lfloor>x\<rfloor> - 1 else - bitlen (\<lceil>1 / x\<rceil> - 1))"

text \<open>Rounding to the nearest integer, a tie going to the even neighbour.\<close>

definition rhe :: "real \<Rightarrow> int" where
  "rhe y = (let f = \<lfloor>y\<rfloor>; d = y - of_int f
            in if d < 1 / 2 then f else if 1 / 2 < d then f + 1
               else if even f then f else f + 1)"

text \<open>
  The spacing of binary64 values around \<open>x\<close>: 53 significant bits, and the fixed
  spacing \<open>2 ^ - 1074\<close> in the subnormal range.
\<close>

definition ulp :: "real \<Rightarrow> real" where
  "ulp x = pow2 (max (ilog2 \<bar>x\<bar> - 52) (- 1074))"

definition fl :: "real \<Rightarrow> real" where
  "fl x = (if x = 0 then 0 else of_int (rhe (x / ulp x)) * ulp x)"

definition is_double :: "real \<Rightarrow> bool" where
  "is_double x \<longleftrightarrow> fl x = x"

definition fadd :: "real \<Rightarrow> real \<Rightarrow> real" where
  "fadd x y = fl (x + y)"

definition fsub :: "real \<Rightarrow> real \<Rightarrow> real" where
  "fsub x y = fl (x - y)"

definition fmul :: "real \<Rightarrow> real \<Rightarrow> real" where
  "fmul x y = fl (x * y)"

definition fdiv :: "real \<Rightarrow> real \<Rightarrow> real" where
  "fdiv x y = fl (x / y)"

text \<open>
  \<open>Math.round\<close> returns the nearest integer, a tie going towards plus infinity; it is
  exact on the binary64 value it is given.
\<close>

definition Math_round :: "real \<Rightarrow> int" where
  "Math_round x = \<lfloor>x + 1 / 2\<rfloor>"

text \<open>
  The remainder operator \<open>%\<close> on integers takes the sign of the dividend. It is only
  applied with a non-zero right operand.
\<close>

definition js_rem :: "int \<Rightarrow> int \<Rightarrow> int" where
  "js_rem a b = sgn a * (\<bar>a\<bar> mod \<bar>b\<bar>)"

text \<open>
  Truthiness of a nullable clock reading, as in \<open>stepStartTime ? e : 0\<close>: \<open>null\<close> and
  \<open>0\<close> both select the second branch.
\<close>

definition elapsed :: "int option \<Rightarrow> int \<Rightarrow> int" where
  "elapsed start now = (case start of None \<Rightarrow> 0 | Some t \<Rightarrow> if t = 0 then 0 else now - t)"

subsection \<open>The random source\<close>

text \<open>
  \<open>Math.random()\<close> is the only source of randomness. A run of the program is
  modelled against the sequence \<open>rs\<close> of the values the successive calls return;
  every function that draws takes the index \<open>p\<close> of the next unread value and returns
  the index after its last draw. \<open>rand_ok\<close> is the contract of \<open>Math.random\<close>: each
  value is a binary64 number in \<open>[0, 1)\<close>.
\<close>

type_synonym rand = "nat \<Rightarrow> real"

definition rand_ok :: "rand \<Rightarrow> bool" where
  "rand_ok rs \<longleftrightarrow> (\<forall>i. is_double (rs i) \<and> 0 \<le> rs i \<and> rs i < 1)"

text \<open>
  Two concrete sources used to run the engines: the one that always returns \<open>r\<close>,
  and the one that repeats the list \<open>xs\<close> forever.
\<close>

definition rand_const :: "real \<Rightarrow> rand" where
  "rand_const r = (\<lambda>i. r)"

definition rand_cycle :: "real list \<Rightarrow> rand" where
  "rand_cycle xs = (\<lambda>i. xs ! (i mod length xs))"

text \<open>
  \<open>Math.floor(Math.random() * (max - min + 1)) + min\<close>, with the value \<open>r\<close> of the
  call to \<open>Math.random\<close> passed in. The chain and divisibility engines call it
  \<open>randomInt\<close>, the percentage and ratio engines \<open>randomInRange\<close>.
\<close>

definition randomInt :: "int \<Rightarrow> int \<Rightarrow> real \<Rightarrow> int" where
  "randomInt mn mx r = \<lfloor>fmul r (of_int (mx - mn + 1))\<rfloor> + mn"

definition randomInRange :: "int \<Rightarrow> int \<Rightarrow> real \<Rightarrow> int" where
  "randomInRange mn mx r = \<lfloor>fmul r (of_int (mx - mn + 1))\<rfloor> + mn"

text \<open>The difficulty type \<open>1 | 2 | 3 | 4 | 5\<close>, shared in shape by all engines.\<close>

datatype Difficulty = D1 | D2 | D3 | D4 | D5

fun level :: "Difficulty \<Rightarrow> int" where
  "level D1 = 1"
| "level D2 = 2"
| "level D3 = 3"
| "level D4 = 4"
| "level D5 = 5"

record Range =
  rmin :: int
  rmax :: int

section \<open>Addition-chain engine\<close>

text \<open>
  The \<open>display\<close> string of a step is left out: it is built with \<open>toLocaleString\<close>,
  whose output depends on the locale, and nothing reads it back. The \<open>description\<close>
  of a difficulty is left out for the same reason.
\<close>

record ChainStep =
  stepNumber :: int
  previousResult :: int
  addend :: int
  result :: int

record ChainConfig =
  minLength :: int
  maxLength :: int
  cc_difficulty :: Difficulty

record GeneratedChain =
  steps :: "ChainStep list"
  totalLength :: int
  finalResult :: int
  gc_difficulty :: Difficulty

record ChainRanges =
  startingNumbers :: Range
  addendProgression :: "Range list"

fun chain_difficultyRanges :: "Difficulty \<Rightarrow> ChainRanges" where
  "chain_difficultyRanges D1 =
     \<lparr>startingNumbers = \<lparr>rmin = 10, rmax = 50\<rparr>,
      addendProgression = [\<lparr>rmin = 10, rmax = 30\<rparr>, \<lparr>rmin = 20, rmax = 50\<rparr>,
                           \<lparr>rmin = 30, rmax = 70\<rparr>, \<lparr>rmin = 40, rmax = 99\<rparr>]\<rparr>"
| "chain_difficultyRanges D2 =
     \<lparr>startingNumbers = \<lparr>rmin = 20, rmax = 99\<rparr>,
      addendProgression = [\<lparr>rmin = 20, rmax = 60\<rparr>, \<lparr>rmin = 50, rmax = 150\<rparr>,
                           \<lparr>rmin = 100, rmax = 300\<rparr>, \<lparr>rmin = 200, rmax = 500\<rparr>]\<rparr>"
| "chain_difficultyRanges D3 =
     \<lparr>startingNumbers = \<lparr>rmin = 50, rmax = 200\<rparr>,
      addendProgression = [\<lparr>rmin = 50, rmax = 150\<rparr>, \<lparr>rmin = 100, rmax = 400\<rparr>,
                           \<lparr>rmin = 300, rmax = 700\<rparr>, \<lparr>rmin = 500, rmax = 999\<rparr>]\<rparr>"
| "chain_difficultyRanges D4 =
     \<lparr>startingNumbers = \<lparr>rmin = 100, rmax = 500\<rparr>,
      addendProgression = [\<lparr>rmin = 100, rmax = 400\<rparr>, \<lparr>rmin = 300, rmax = 800\<rparr>,
                           \<lparr>rmin = 500, rmax = 1500\<rparr>, \<lparr>rmin = 1000, rmax = 3000\<rparr>]\<rparr>"
| "chain_difficultyRanges D5 =
     \<lparr>startingNumbers = \<lparr>rmin = 200, rmax = 999\<rparr>,
      addendProgression = [\<lparr>rmin = 200, rmax = 600\<rparr>, \<lparr>rmin = 500, rmax = 1500\<rparr>,
                           \<lparr>rmin = 1000, rmax = 5000\<rparr>, \<lparr>rmin = 3000, rmax = 9999\<rparr>]\<rparr>"

definition getAddendRange :: "int \<Rightarrow> Difficulty \<Rightarrow> Range" where
  "getAddendRange stepNo d =
     (let ranges = addendProgression (chain_difficultyRanges d)
      in if stepNo \<le> 5 then ranges ! 0
         else if stepNo \<le> 10 then ranges ! 1
         else if stepNo \<le> 15 then ranges ! 2
         else ranges ! 3)"

definition generateStartingPair :: "rand \<Rightarrow> nat \<Rightarrow> Difficulty \<Rightarrow> (int \<times> int) \<times> nat" where
  "generateStartingPair rs p d =
     (let rg = startingNumbers (chain_difficultyRanges d);
          first = randomInt (rmin rg) (rmax rg) (rs p);
          second = randomInt (rmin rg) (rmax rg) (rs (p + 1))
      in ((first, second), p + 2))"

text \<open>
  The loop \<open>for (let i = 2; i <= totalLength; i++)\<close> of \<open>generateChain\<close>, carrying the
  running result, the steps pushed so far and the position in the random source.
\<close>

function chain_loop ::
  "rand \<Rightarrow> Difficulty \<Rightarrow> int \<Rightarrow> int \<Rightarrow> int \<Rightarrow> ChainStep list \<Rightarrow> nat
     \<Rightarrow> ChainStep list \<times> int \<times> nat" where
  "chain_loop rs d totalLen i currentResult acc p =
     (if i \<le> totalLen then
        (let addendRange = getAddendRange i d;
             a = randomInt (rmin addendRange) (rmax addendRange) (rs p);
             prev = currentResult;
             next = prev + a
         in chain_loop rs d totalLen (i + 1) next
              (acc @ [\<lparr>stepNumber = i, previousResult = prev, addend = a, result = next\<rparr>])
              (p + 1))
      else (acc, currentResult, p))"
  by pat_completeness auto
termination
  by (relation "measure (\<lambda>(rs, d, totalLen, i, c, acc, p). nat (totalLen + 1 - i))") auto

declare chain_loop.simps [simp del]

definition generateChain :: "rand \<Rightarrow> nat \<Rightarrow> ChainConfig \<Rightarrow> GeneratedChain \<times> nat" where
  "generateChain rs p config =
     (let totalLen = randomInt (minLength config) (maxLength config) (rs p);
          ((first, second), p1) = generateStartingPair rs (p + 1) (cc_difficulty config);
          start = first + second;
          step1 = \<lparr>stepNumber = 1, previousResult = first, addend = second, result = start\<rparr>;
          (all_steps, final, p2) = chain_loop rs (cc_difficulty config) totalLen 2 start [step1] p1
      in (\<lparr>steps = all_steps, totalLength = totalLen, finalResult = final,
           gc_difficulty = cc_difficulty config\<rparr>, p2))"

definition generateDefaultChain :: "rand \<Rightarrow> nat \<Rightarrow> Difficulty \<Rightarrow> GeneratedChain \<times> nat" where
  "generateDefaultChain rs p d =
     generateChain rs p \<lparr>minLength = 10, maxLength = 20, cc_difficulty = d\<rparr>"

definition validateStepAnswer :: "ChainStep \<Rightarrow> int \<Rightarrow> bool" where
  "validateStepAnswer step userAnswer \<longleftrightarrow> userAnswer = result step"

text \<open>
  The arguments of \<open>calculateChainStats\<close> are numbers; the products, quotients, the
  difference and the sums of its body are all binary64 operations. \<open>Math.round\<close>
  yields a whole number, kept as an \<open>int\<close>.
\<close>

record ChainStats =
  totalSteps :: real
  correctSteps :: real
  accuracy :: int
  averageTimePerStep :: real
  completed :: bool
  finalScore :: real

definition calculateChainStats :: "real \<Rightarrow> real \<Rightarrow> real \<Rightarrow> bool \<Rightarrow> ChainStats" where
  "calculateChainStats nTotal nCorrect totalTimeMs compl =
     (let acc = (if nTotal > 0 then fmul (fdiv nCorrect nTotal) 100 else 0);
          avg = (if nTotal > 0 then fdiv (fdiv totalTimeMs nTotal) 1000 else 0);
          basePoints = fmul nCorrect 10;
          accuracyBonus = of_int (Math_round (fmul acc 2));
          speedBonus = (if avg < 5 then of_int (Math_round (fmul (fsub 5 avg) 10)) else 0);
          completionBonus = (if compl then 50 else 0)
      in \<lparr>totalSteps = nTotal, correctSteps = nCorrect, accuracy = Math_round acc,
          averageTimePerStep = fdiv (of_int (Math_round (fmul avg 10))) 10,
          completed = compl,
          finalScore = fadd (fadd (fadd basePoints accuracyBonus) speedBonus) completionBonus\<rparr>)"

text \<open>
  The score formula as the specification writes it, read in exact arithmetic: no
  operation is rounded to binary64, and \<open>round\<close> is rounding to the nearest whole
  number.
\<close>

definition spec_finalScore :: "real \<Rightarrow> real \<Rightarrow> real \<Rightarrow> bool \<Rightarrow> real" where
  "spec_finalScore nTotal nCorrect totalTimeMs compl =
     (let acc = nCorrect / nTotal * 100;
          avgTimePerStepSec = totalTimeMs / nTotal / 1000
      in nCorrect * 10 + of_int (Math_round (acc * 2))
         + (if avgTimePerStepSec < 5 then of_int (Math_round ((5 - avgTimePerStepSec) * 10))
            else 0)
         + (if compl then 50 else 0))"

section \<open>Divisibility and remainder engine\<close>

text \<open>
  The \<open>display\<close> and \<open>description\<close> strings are left out here as well; no function
  of the engine or of its store reads them.
\<close>

record DivisibilityProblem =
  dividend :: int
  divisor :: int
  quotient :: int
  remainder :: int
  negativeRemainder :: int
  isDivisible :: bool
  dp_difficulty :: Difficulty

datatype RemainderType = Positive | Negative | Both

record DivisibilityConfig =
  dc_difficulty :: Difficulty
  remainderType :: RemainderType
  includeExactDivisibility :: bool

record DivRanges =
  dividendRange :: Range
  divisorRange :: Range

fun div_difficultyRanges :: "Difficulty \<Rightarrow> DivRanges" where
  "div_difficultyRanges D1 =
     \<lparr>dividendRange = \<lparr>rmin = 10, rmax = 50\<rparr>, divisorRange = \<lparr>rmin = 2, rmax = 5\<rparr>\<rparr>"
| "div_difficultyRanges D2 =
     \<lparr>dividendRange = \<lparr>rmin = 20, rmax = 99\<rparr>, divisorRange = \<lparr>rmin = 2, rmax = 9\<rparr>\<rparr>"
| "div_difficultyRanges D3 =
     \<lparr>dividendRange = \<lparr>rmin = 50, rmax = 200\<rparr>, divisorRange = \<lparr>rmin = 3, rmax = 12\<rparr>\<rparr>"
| "div_difficultyRanges D4 =
     \<lparr>dividendRange = \<lparr>rmin = 100, rmax = 500\<rparr>, divisorRange = \<lparr>rmin = 5, rmax = 25\<rparr>\<rparr>"
| "div_difficultyRanges D5 =
     \<lparr>dividendRange = \<lparr>rmin = 200, rmax = 999\<rparr>, divisorRange = \<lparr>rmin = 7, rmax = 50\<rparr>\<rparr>"

definition generateExactDivisibilityProblem ::
  "rand \<Rightarrow> nat \<Rightarrow> Difficulty \<Rightarrow> DivisibilityProblem \<times> nat" where
  "generateExactDivisibilityProblem rs p d =
     (let config = div_difficultyRanges d;
          dv = randomInt (rmin (divisorRange config)) (rmax (divisorRange config)) (rs p);
          minQuotient = \<lceil>fdiv (of_int (rmin (dividendRange config))) (of_int dv)\<rceil>;
          maxQuotient = \<lfloor>fdiv (of_int (rmax (dividendRange config))) (of_int dv)\<rfloor>;
          q = randomInt (max 2 minQuotient) (max 3 maxQuotient) (rs (p + 1));
          dd = q * dv
      in (\<lparr>dividend = dd, divisor = dv, quotient = q, remainder = 0,
           negativeRemainder = 0, isDivisible = True, dp_difficulty = d\<rparr>, p + 2))"

text \<open>
  The sampling loop \<open>do { dividend = randomInt(..); attempts++ } while (dividend %
  divisor === 0 && attempts < 50)\<close>. It returns the last dividend drawn, the number
  of attempts made and the position in the random source.
\<close>

function remainder_loop :: "rand \<Rightarrow> Range \<Rightarrow> int \<Rightarrow> nat \<Rightarrow> nat \<Rightarrow> int \<times> nat \<times> nat" where
  "remainder_loop rs rg dv attempts p =
     (if js_rem (randomInt (rmin rg) (rmax rg) (rs p)) dv = 0 \<and> attempts + 1 < 50
      then remainder_loop rs rg dv (attempts + 1) (p + 1)
      else (randomInt (rmin rg) (rmax rg) (rs p), attempts + 1, p + 1))"
  by pat_completeness auto
termination
  by (relation "measure (\<lambda>(rs, rg, dv, attempts, p). 50 - attempts)") auto

declare remainder_loop.simps [simp del]

definition generateRemainderProblem ::
  "rand \<Rightarrow> nat \<Rightarrow> Difficulty \<Rightarrow> DivisibilityProblem \<times> nat" where
  "generateRemainderProblem rs p d =
     (let config = div_difficultyRanges d;
          dv = randomInt (rmin (divisorRange config)) (rmax (divisorRange config)) (rs p);
          (dd0, attempts, p1) = remainder_loop rs (dividendRange config) dv 0 (p + 1);
          (dd, p2) = (if js_rem dd0 dv = 0 then (dd0 + randomInt 1 (dv - 1) (rs p1), p1 + 1)
                      else (dd0, p1));
          q = \<lfloor>fdiv (of_int dd) (of_int dv)\<rfloor>;
          r = js_rem dd dv;
          nr = (if r > 0 then r - dv else 0)
      in (\<lparr>dividend = dd, divisor = dv, quotient = q, remainder = r,
           negativeRemainder = nr, isDivisible = False, dp_difficulty = d\<rparr>, p2))"

text \<open>
  \<open>includeExactDivisibility && Math.random() < 0.3\<close>: the random source is read only
  when the flag is set. The literal \<open>0.3\<close> denotes the binary64 value nearest to it.
\<close>

definition generateDivisibilityProblem ::
  "rand \<Rightarrow> nat \<Rightarrow> DivisibilityConfig \<Rightarrow> DivisibilityProblem \<times> nat" where
  "generateDivisibilityProblem rs p config =
     (let (shouldBeExact, p1) =
            (if includeExactDivisibility config then (rs p < fl (3 / 10), p + 1)
             else (False, p))
      in if shouldBeExact then generateExactDivisibilityProblem rs p1 (dc_difficulty config)
         else generateRemainderProblem rs p1 (dc_difficulty config))"

definition generateDefaultProblem ::
  "rand \<Rightarrow> nat \<Rightarrow> Difficulty \<Rightarrow> DivisibilityProblem \<times> nat" where
  "generateDefaultProblem rs p d =
     generateDivisibilityProblem rs p
       \<lparr>dc_difficulty = d, remainderType = Positive, includeExactDivisibility = True\<rparr>"

definition validateDivisibilityAnswer :: "DivisibilityProblem \<Rightarrow> bool \<Rightarrow> bool" where
  "validateDivisibilityAnswer problem userSaidDivisible \<longleftrightarrow>
     userSaidDivisible = isDivisible problem"

definition validateRemainderAnswer :: "DivisibilityProblem \<Rightarrow> int \<Rightarrow> bool \<Rightarrow> bool" where
  "validateRemainderAnswer problem userRemainder acceptNegative =
     (if isDivisible problem \<and> userRemainder = 0 then True
      else if userRemainder = remainder problem then True
      else if acceptNegative \<and> userRemainder = negativeRemainder problem then True
      else False)"

section \<open>Percentage engine\<close>

record PercentageProblem =
  pp_numerator :: int
  pp_denominator :: int
  pp_question :: string
  pp_answer :: real
  pp_difficulty :: Difficulty
  pp_decimalPlaces :: int

record PercentageConfig =
  pc_numRange :: "int \<times> int"
  pc_denRange :: "int \<times> int"
  allowOver100 :: bool
  pc_decimalPlaces :: int

fun pct_DIFFICULTY_CONFIG :: "Difficulty \<Rightarrow> PercentageConfig" where
  "pct_DIFFICULTY_CONFIG D1 =
     \<lparr>pc_numRange = (10, 45), pc_denRange = (50, 100), allowOver100 = False,
      pc_decimalPlaces = 1\<rparr>"
| "pct_DIFFICULTY_CONFIG D2 =
     \<lparr>pc_numRange = (15, 70), pc_denRange = (40, 120), allowOver100 = False,
      pc_decimalPlaces = 1\<rparr>"
| "pct_DIFFICULTY_CONFIG D3 =
     \<lparr>pc_numRange = (20, 90), pc_denRange = (50, 150), allowOver100 = False,
      pc_decimalPlaces = 2\<rparr>"
| "pct_DIFFICULTY_CONFIG D4 =
     \<lparr>pc_numRange = (30, 180), pc_denRange = (60, 200), allowOver100 = True,
      pc_decimalPlaces = 2\<rparr>"
| "pct_DIFFICULTY_CONFIG D5 =
     \<lparr>pc_numRange = (50, 300), pc_denRange = (70, 250), allowOver100 = True,
      pc_decimalPlaces = 2\<rparr>"

text \<open>Decimal notation of an integer, as template literals print it.\<close>

fun show_nat :: "nat \<Rightarrow> string" where
  "show_nat n =
     (if n < 10 then [''0123456789'' ! n]
      else show_nat (n div 10) @ [''0123456789'' ! (n mod 10)])"

definition show_int :: "int \<Rightarrow> string" where
  "show_int i = (if i < 0 then ''-'' @ show_nat (nat (- i)) else show_nat (nat i))"

text \<open>\<open>Math.pow(10, decimalPlaces)\<close> is exact for the two values in use.\<close>

definition calculatePercentage :: "int \<Rightarrow> int \<Rightarrow> int \<Rightarrow> real" where
  "calculatePercentage num den places =
     (let percentage = fmul (fdiv (of_int num) (of_int den)) 100;
          multiplier = 10 ^ nat places
      in fdiv (of_int (Math_round (fmul percentage multiplier))) multiplier)"

text \<open>The literals \<open>0.05\<close> and \<open>0.005\<close> denote the binary64 values nearest to them.\<close>

definition isPercentageCorrect :: "real \<Rightarrow> real \<Rightarrow> int \<Rightarrow> bool" where
  "isPercentageCorrect userAnswer correctAnswer places =
     (let tolerance = (if places = 1 then fl (5 / 100) else fl (5 / 1000))
      in \<bar>fsub userAnswer correctAnswer\<bar> \<le> tolerance)"

text \<open>
  One pass of the body of the \<open>do \<dots> while\<close> loop of \<open>generatePercentageProblem\<close>:
  the numerator, the denominator and the percentage it samples.
\<close>

definition percentage_sample :: "rand \<Rightarrow> nat \<Rightarrow> Difficulty \<Rightarrow> int \<times> int \<times> real" where
  "percentage_sample rs p d =
     (let config = pct_DIFFICULTY_CONFIG d;
          den = randomInRange (fst (pc_denRange config)) (snd (pc_denRange config)) (rs p);
          num = (if allowOver100 config
                 then randomInRange (fst (pc_numRange config)) (snd (pc_numRange config))
                        (rs (p + 1))
                 else randomInRange (fst (pc_numRange config))
                        (min (snd (pc_numRange config)) (den - 1)) (rs (p + 1)))
      in (num, den, calculatePercentage num den (pc_decimalPlaces config)))"

text \<open>
  The loop condition. The two last disjuncts of the source, \<open>isNaN(percentage)\<close> and
  \<open>!isFinite(percentage)\<close>, are false for every value of this model.
\<close>

definition percentage_rejected :: "Difficulty \<Rightarrow> real \<Rightarrow> bool" where
  "percentage_rejected d percentage \<longleftrightarrow>
     percentage = 50 \<or> percentage = 100 \<or> percentage = 25 \<or> percentage = 75 \<or>
     (level d < 3 \<and> percentage < 15)"

text \<open>
  The loop has no bound on the number of passes, so the function is partial:
  \<open>None\<close> stands for a call that never returns.
\<close>

partial_function (option) generatePercentageProblem ::
  "rand \<Rightarrow> nat \<Rightarrow> Difficulty \<Rightarrow> (PercentageProblem \<times> nat) option" where
  "generatePercentageProblem rs p d =
     (case percentage_sample rs p d of
        (num, den, percentage) \<Rightarrow>
          if percentage_rejected d percentage then generatePercentageProblem rs (p + 2) d
          else Some (\<lparr>pp_numerator = num, pp_denominator = den,
                      pp_question = show_int num @ ''/'' @ show_int den,
                      pp_answer = percentage, pp_difficulty = d,
                      pp_decimalPlaces = pc_decimalPlaces (pct_DIFFICULTY_CONFIG d)\<rparr>, p + 2))"

section \<open>Ratio comparison engine\<close>

record Ratio =
  numerator :: int
  denominator :: int
  val :: real
  display :: string

datatype Answer = AnsA | AnsB

record RatioComparisonProblem =
  ratioA :: Ratio
  ratioB :: Ratio
  correctAnswer :: Answer
  rc_difficulty :: Difficulty
  percentageDiff :: real

record RatioConfig =
  rc_numRange :: "int \<times> int"
  rc_denRange :: "int \<times> int"
  minDiffPercent :: real
  maxDiffPercent :: real

fun ratio_DIFFICULTY_CONFIG :: "Difficulty \<Rightarrow> RatioConfig" where
  "ratio_DIFFICULTY_CONFIG D1 =
     \<lparr>rc_numRange = (10, 50), rc_denRange = (20, 80), minDiffPercent = 15,
      maxDiffPercent = 40\<rparr>"
| "ratio_DIFFICULTY_CONFIG D2 =
     \<lparr>rc_numRange = (15, 80), rc_denRange = (30, 120), minDiffPercent = 8,
      maxDiffPercent = 15\<rparr>"
| "ratio_DIFFICULTY_CONFIG D3 =
     \<lparr>rc_numRange = (20, 120), rc_denRange = (40, 180), minDiffPercent = 4,
      maxDiffPercent = 8\<rparr>"
| "ratio_DIFFICULTY_CONFIG D4 =
     \<lparr>rc_numRange = (50, 200), rc_denRange = (80, 250), minDiffPercent = 2,
      maxDiffPercent = 4\<rparr>"
| "ratio_DIFFICULTY_CONFIG D5 =
     \<lparr>rc_numRange = (100, 300), rc_denRange = (120, 350), minDiffPercent = 1 / 2,
      maxDiffPercent = 2\<rparr>"

definition createRatio :: "int \<Rightarrow> int \<Rightarrow> Ratio" where
  "createRatio num den =
     \<lparr>numerator = num, denominator = den, val = fdiv (of_int num) (of_int den),
      display = show_int num @ ''/'' @ show_int den\<rparr>"

definition getPercentageDifference :: "Ratio \<Rightarrow> Ratio \<Rightarrow> real" where
  "getPercentageDifference ratio1 ratio2 =
     (let larger = max (val ratio1) (val ratio2);
          smaller = min (val ratio1) (val ratio2)
      in fmul (fdiv (fsub larger smaller) smaller) 100)"

text \<open>
  One pass of the body of the \<open>do \<dots> while\<close> loop of \<open>generateRatioComparison\<close>: the
  two ratios, their percentage difference and the position in the random source.
  The bounds \<open>minDiffPercent * 10\<close> and \<open>maxDiffPercent * 10\<close> handed to
  \<open>randomInRange\<close> are whole numbers for the two difficulties that reach this
  branch (20 and 40, 5 and 20); the floor only converts them.
\<close>

definition ratio_attempt :: "rand \<Rightarrow> nat \<Rightarrow> Difficulty \<Rightarrow> Ratio \<times> Ratio \<times> real \<times> nat" where
  "ratio_attempt rs p d =
     (let config = ratio_DIFFICULTY_CONFIG d;
          nlo = fst (rc_numRange config); nhi = snd (rc_numRange config);
          dlo = fst (rc_denRange config); dhi = snd (rc_denRange config);
          num1 = randomInRange nlo nhi (rs p);
          den1 = randomInRange dlo dhi (rs (p + 1));
          a = createRatio num1 den1;
          (b, p') =
            (if level d \<ge> 4 then
               (let basePercentage = fmul (fdiv (of_int num1) (of_int den1)) 100;
                    sign = (if rs (p + 2) > 1 / 2 then 1 else - 1);
                    k = randomInRange \<lfloor>fmul (minDiffPercent config) 10\<rfloor>
                          \<lfloor>fmul (maxDiffPercent config) 10\<rfloor> (rs (p + 3));
                    targetPercentage = fadd basePercentage (fdiv (of_int (sign * k)) 10);
                    den2 = randomInRange dlo dhi (rs (p + 4));
                    num2 = Math_round (fmul (fdiv targetPercentage 100) (of_int den2))
                in if num2 > 0 \<and> num2 < den2 * 2 then (createRatio num2 den2, p + 5)
                   else (createRatio (randomInRange nlo nhi (rs (p + 5)))
                           (randomInRange dlo dhi (rs (p + 6))), p + 7))
             else (createRatio (randomInRange nlo nhi (rs (p + 2)))
                     (randomInRange dlo dhi (rs (p + 3))), p + 4))
      in (a, b, getPercentageDifference a b, p'))"

text \<open>The part of the loop condition that does not count attempts.\<close>

definition ratio_unacceptable :: "Difficulty \<Rightarrow> Ratio \<Rightarrow> Ratio \<Rightarrow> real \<Rightarrow> bool" where
  "ratio_unacceptable d a b pd \<longleftrightarrow>
     pd < minDiffPercent (ratio_DIFFICULTY_CONFIG d) \<or>
     pd > maxDiffPercent (ratio_DIFFICULTY_CONFIG d) \<or>
     val a = val b \<or> display a = display b"

definition maxAttempts :: nat where
  "maxAttempts = 100"

text \<open>
  The loop itself. It returns the last pair sampled, its percentage difference, the
  number of attempts made and the position in the random source.
\<close>

function ratio_loop ::
  "rand \<Rightarrow> Difficulty \<Rightarrow> nat \<Rightarrow> nat \<Rightarrow> Ratio \<times> Ratio \<times> real \<times> nat \<times> nat" where
  "ratio_loop rs d attempts p =
     (case ratio_attempt rs p d of
        (a, b, pd, p') \<Rightarrow>
          if ratio_unacceptable d a b pd \<and> attempts + 1 < maxAttempts
          then ratio_loop rs d (attempts + 1) p'
          else (a, b, pd, attempts + 1, p'))"
  by pat_completeness auto
termination
  by (relation "measure (\<lambda>(rs, d, attempts, p). maxAttempts - attempts)") auto

declare ratio_loop.simps [simp del]

text \<open>
  What \<open>generateRatioComparison\<close> does after the loop, given what the loop returned:
  the fallback once all attempts are used, the positional swap, and the answer.
\<close>

definition ratio_finish ::
  "rand \<Rightarrow> Difficulty \<Rightarrow> Ratio \<times> Ratio \<times> real \<times> nat \<times> nat \<Rightarrow> RatioComparisonProblem \<times> nat" where
  "ratio_finish rs d looped =
     (case looped of
        (a, b0, pd0, attempts, p1) \<Rightarrow>
          (let config = ratio_DIFFICULTY_CONFIG d;
               (b, pd) =
                 (if attempts \<ge> maxAttempts then
                    (let adjustment = fadd 1 (fdiv (minDiffPercent config) 100);
                         b' = createRatio (Math_round (fmul (of_int (numerator a)) adjustment))
                                (denominator a)
                     in (b', getPercentageDifference a b'))
                  else (b0, pd0));
               (ra, rb) = (if rs p1 > 1 / 2 then (b, a) else (a, b));
               answer = (if val ra > val rb then AnsA else AnsB)
           in (\<lparr>ratioA = ra, ratioB = rb, correctAnswer = answer, rc_difficulty = d,
                percentageDiff = fdiv (of_int (Math_round (fmul pd 100))) 100\<rparr>, p1 + 1)))"

definition generateRatioComparison ::
  "rand \<Rightarrow> nat \<Rightarrow> Difficulty \<Rightarrow> RatioComparisonProblem \<times> nat" where
  "generateRatioComparison rs p d = ratio_finish rs d (ratio_loop rs d 0 p)"

section \<open>Session state machines\<close>

subsection \<open>Store of the simple modes\<close>

text \<open>
  Every action takes the reading \<open>now\<close> of \<open>Date.now()\<close>; where an action reads the
  clock twice, both readings are the same instant. A function that returns a value
  besides changing the store returns the pair of both.
\<close>

datatype GameMode = ModeAddition | ModeSubtraction | ModePercentage | ModeRatio

record GameStats =
  totalQuestions :: int
  correctAnswers :: int
  currentStreak :: int
  bestStreak :: int
  averageTime :: real
  sessionTimes :: "real list"

record GameState =
  mode :: GameMode
  gs_difficulty :: Difficulty
  isPlaying :: bool
  currentQuestion :: "string option"
  currentAnswer :: "real option"
  questionStartTime :: "int option"
  stats :: GameStats

definition initialStats :: GameStats where
  "initialStats =
     \<lparr>totalQuestions = 0, correctAnswers = 0, currentStreak = 0, bestStreak = 0,
      averageTime = 0, sessionTimes = []\<rparr>"

definition game_initial :: GameState where
  "game_initial =
     \<lparr>mode = ModeAddition, gs_difficulty = D1, isPlaying = False, currentQuestion = None,
      currentAnswer = None, questionStartTime = None, stats = initialStats\<rparr>"

definition game_setMode :: "GameMode \<Rightarrow> GameState \<Rightarrow> GameState" where
  "game_setMode m s = s\<lparr>mode := m\<rparr>"

definition game_setDifficulty :: "Difficulty \<Rightarrow> GameState \<Rightarrow> GameState" where
  "game_setDifficulty d s = s\<lparr>gs_difficulty := d\<rparr>"

definition game_startGame :: "int \<Rightarrow> GameState \<Rightarrow> GameState" where
  "game_startGame now s = s\<lparr>isPlaying := True, questionStartTime := Some now\<rparr>"

definition game_endGame :: "GameState \<Rightarrow> GameState" where
  "game_endGame s =
     s\<lparr>isPlaying := False, currentQuestion := None, currentAnswer := None,
       questionStartTime := None\<rparr>"

definition game_setQuestion :: "string \<Rightarrow> real \<Rightarrow> int \<Rightarrow> GameState \<Rightarrow> GameState" where
  "game_setQuestion q a now s =
     s\<lparr>currentQuestion := Some q, currentAnswer := Some a, questionStartTime := Some now\<rparr>"

definition game_submitAnswer :: "real \<Rightarrow> int \<Rightarrow> GameState \<Rightarrow> bool \<times> GameState" where
  "game_submitAnswer userAnswer now s =
     (let isCorrect = (currentAnswer s = Some userAnswer);
          timeTaken = fdiv (of_int (elapsed (questionStartTime s) now)) 1000;
          st = stats s;
          newSessionTimes = sessionTimes st @ [timeTaken];
          newTotalQuestions = totalQuestions st + 1;
          newCorrectAnswers = correctAnswers st + (if isCorrect then 1 else 0);
          newCurrentStreak = (if isCorrect then currentStreak st + 1 else 0);
          newBestStreak = max (bestStreak st) newCurrentStreak;
          newAverageTime =
            fdiv (foldl fadd 0 newSessionTimes) (of_nat (length newSessionTimes))
      in (isCorrect,
          s\<lparr>stats := \<lparr>totalQuestions = newTotalQuestions, correctAnswers = newCorrectAnswers,
                       currentStreak = newCurrentStreak, bestStreak = newBestStreak,
                       averageTime = newAverageTime, sessionTimes = newSessionTimes\<rparr>\<rparr>))"

definition game_resetStats :: "GameState \<Rightarrow> GameState" where
  "game_resetStats s = s\<lparr>stats := initialStats\<rparr>"

datatype GameAction =
  GSetMode GameMode
| GSetDifficulty Difficulty
| GStartGame
| GEndGame
| GSetQuestion string real
| GSubmitAnswer real
| GResetStats

fun game_step :: "int \<Rightarrow> GameAction \<Rightarrow> GameState \<Rightarrow> GameState" where
  "game_step now (GSetMode m) s = game_setMode m s"
| "game_step now (GSetDifficulty d) s = game_setDifficulty d s"
| "game_step now GStartGame s = game_startGame now s"
| "game_step now GEndGame s = game_endGame s"
| "game_step now (GSetQuestion q a) s = game_setQuestion q a now s"
| "game_step now (GSubmitAnswer u) s = snd (game_submitAnswer u now s)"
| "game_step now GResetStats s = game_resetStats s"

subsection \<open>Store of the divisibility mode\<close>

datatype DivisibilityPhase = PSetup | PDivisibility | PRemainder | PFeedback | PSummary

datatype AnswerResult = Correct | Incorrect | Pending

record ProblemResult =
  pr_problem :: DivisibilityProblem
  pr_userDivisibilityAnswer :: "bool option"
  pr_userRemainderAnswer :: "int option"
  divisibilityCorrect :: bool
  remainderCorrect :: bool
  pr_timeMs :: int

record DivisibilityGameState =
  ds_difficulty :: Difficulty
  acceptNegativeRemainders :: bool
  ds_phase :: DivisibilityPhase
  currentProblem :: "DivisibilityProblem option"
  problemCount :: int
  maxProblems :: int
  results :: "ProblemResult list"
  userDivisibilityAnswer :: "bool option"
  divisibilityResult :: AnswerResult
  ds_gameStartTime :: "int option"
  problemStartTime :: "int option"
  ds_totalGamesPlayed :: int
  totalProblemsAttempted :: int
  totalCorrectDivisibility :: int
  totalCorrectRemainder :: int
  bestAccuracy :: int

definition div_initial :: DivisibilityGameState where
  "div_initial =
     \<lparr>ds_difficulty = D2, acceptNegativeRemainders = True, ds_phase = PSetup,
      currentProblem = None, problemCount = 0, maxProblems = 10, results = [],
      userDivisibilityAnswer = None, divisibilityResult = Pending,
      ds_gameStartTime = None, problemStartTime = None, ds_totalGamesPlayed = 0,
      totalProblemsAttempted = 0, totalCorrectDivisibility = 0,
      totalCorrectRemainder = 0, bestAccuracy = 0\<rparr>"

definition div_setDifficulty :: "Difficulty \<Rightarrow> DivisibilityGameState \<Rightarrow> DivisibilityGameState" where
  "div_setDifficulty d s = s\<lparr>ds_difficulty := d\<rparr>"

definition div_setAcceptNegativeRemainders ::
  "bool \<Rightarrow> DivisibilityGameState \<Rightarrow> DivisibilityGameState" where
  "div_setAcceptNegativeRemainders accept s = s\<lparr>acceptNegativeRemainders := accept\<rparr>"

definition div_setMaxProblems :: "int \<Rightarrow> DivisibilityGameState \<Rightarrow> DivisibilityGameState" where
  "div_setMaxProblems n s = s\<lparr>maxProblems := n\<rparr>"

definition div_startGame ::
  "rand \<Rightarrow> nat \<Rightarrow> int \<Rightarrow> DivisibilityGameState \<Rightarrow> DivisibilityGameState \<times> nat" where
  "div_startGame rs p now s =
     (case generateDefaultProblem rs p (ds_difficulty s) of
        (problem, p') \<Rightarrow>
          (s\<lparr>ds_phase := PDivisibility, currentProblem := Some problem, problemCount := 1,
             results := [], userDivisibilityAnswer := None, divisibilityResult := Pending,
             ds_gameStartTime := Some now, problemStartTime := Some now\<rparr>, p'))"

definition submitDivisibilityAnswer ::
  "bool \<Rightarrow> DivisibilityGameState \<Rightarrow> bool \<times> DivisibilityGameState" where
  "submitDivisibilityAnswer claim s =
     (case currentProblem s of
        None \<Rightarrow> (False, s)
      | Some problem \<Rightarrow>
          (let isCorrect = validateDivisibilityAnswer problem claim
           in (isCorrect,
               s\<lparr>userDivisibilityAnswer := Some claim,
                 divisibilityResult := (if isCorrect then Correct else Incorrect),
                 ds_phase := PRemainder\<rparr>)))"

definition submitRemainderAnswer ::
  "int \<Rightarrow> int \<Rightarrow> DivisibilityGameState \<Rightarrow> bool \<times> DivisibilityGameState" where
  "submitRemainderAnswer r now s =
     (case (currentProblem s, userDivisibilityAnswer s) of
        (Some problem, Some claim) \<Rightarrow>
          (let isCorrect = validateRemainderAnswer problem r (acceptNegativeRemainders s);
               res = \<lparr>pr_problem = problem, pr_userDivisibilityAnswer = Some claim,
                      pr_userRemainderAnswer = Some r,
                      divisibilityCorrect = (divisibilityResult s = Correct),
                      remainderCorrect = isCorrect,
                      pr_timeMs = elapsed (problemStartTime s) now\<rparr>
           in (isCorrect, s\<lparr>results := results s @ [res], ds_phase := PFeedback\<rparr>))
      | _ \<Rightarrow> (False, s))"

definition div_endGame :: "DivisibilityGameState \<Rightarrow> DivisibilityGameState" where
  "div_endGame s =
     (let correctDiv = int (length (filter divisibilityCorrect (results s)));
          correctRem = int (length (filter remainderCorrect (results s)));
          totalAnswers = int (length (results s)) * 2;
          sessionAccuracy =
            (if totalAnswers > 0
             then Math_round (fmul (fdiv (of_int (correctDiv + correctRem)) (of_int totalAnswers)) 100)
             else 0)
      in s\<lparr>ds_phase := PSummary,
           ds_totalGamesPlayed := ds_totalGamesPlayed s + 1,
           totalProblemsAttempted := totalProblemsAttempted s + int (length (results s)),
           totalCorrectDivisibility := totalCorrectDivisibility s + correctDiv,
           totalCorrectRemainder := totalCorrectRemainder s + correctRem,
           bestAccuracy := max (bestAccuracy s) sessionAccuracy\<rparr>)"

definition nextProblem ::
  "rand \<Rightarrow> nat \<Rightarrow> int \<Rightarrow> DivisibilityGameState \<Rightarrow> DivisibilityGameState \<times> nat" where
  "nextProblem rs p now s =
     (if problemCount s \<ge> maxProblems s then (div_endGame s, p)
      else (case generateDefaultProblem rs p (ds_difficulty s) of
              (problem, p') \<Rightarrow>
                (s\<lparr>ds_phase := PDivisibility, currentProblem := Some problem,
                   problemCount := problemCount s + 1, userDivisibilityAnswer := None,
                   divisibilityResult := Pending, problemStartTime := Some now\<rparr>, p')))"

definition div_resetGame :: "DivisibilityGameState \<Rightarrow> DivisibilityGameState" where
  "div_resetGame s =
     s\<lparr>ds_phase := PSetup, currentProblem := None, problemCount := 0, results := [],
       userDivisibilityAnswer := None, divisibilityResult := Pending,
       ds_gameStartTime := None, problemStartTime := None\<rparr>"

definition getSessionAccuracy :: "DivisibilityGameState \<Rightarrow> int" where
  "getSessionAccuracy s =
     (if length (results s) = 0 then 0
      else (let correctDiv = int (length (filter divisibilityCorrect (results s)));
                correctRem = int (length (filter remainderCorrect (results s)));
                totalAnswers = int (length (results s)) * 2
            in Math_round
                 (fmul (fdiv (of_int (correctDiv + correctRem)) (of_int totalAnswers)) 100)))"

datatype DivAction =
  DSetDifficulty Difficulty
| DSetAcceptNegativeRemainders bool
| DSetMaxProblems int
| DStartGame
| DSubmitDivisibilityAnswer bool
| DSubmitRemainderAnswer int
| DNextProblem
| DEndGame
| DResetGame

fun div_step :: "rand \<Rightarrow> nat \<Rightarrow> int \<Rightarrow> DivAction \<Rightarrow> DivisibilityGameState \<Rightarrow> DivisibilityGameState" where
  "div_step rs p now (DSetDifficulty d) s = div_setDifficulty d s"
| "div_step rs p now (DSetAcceptNegativeRemainders b) s = div_setAcceptNegativeRemainders b s"
| "div_step rs p now (DSetMaxProblems n) s = div_setMaxProblems n s"
| "div_step rs p now DStartGame s = fst (div_startGame rs p now s)"
| "div_step rs p now (DSubmitDivisibilityAnswer b) s = snd (submitDivisibilityAnswer b s)"
| "div_step rs p now (DSubmitRemainderAnswer r) s = snd (submitRemainderAnswer r now s)"
| "div_step rs p now DNextProblem s = fst (nextProblem rs p now s)"
| "div_step rs p now DEndGame s = div_endGame s"
| "div_step rs p now DResetGame s = div_resetGame s"

subsection \<open>Store of the chain mode\<close>

datatype ChainGamePhase = CSetup | CPlaying | CReview | CComplete

record ChainStepResult =
  sr_step :: ChainStep
  sr_userAnswer :: "int option"
  sr_isCorrect :: bool
  sr_timeMs :: int

record ChainHistoryEntry =
  he_date :: int
  he_difficulty :: Difficulty
  he_stats :: ChainStats

record ChainGameState =
  cs_difficulty :: Difficulty
  cs_phase :: ChainGamePhase
  chain :: "GeneratedChain option"
  currentStepIndex :: nat
  stepResults :: "ChainStepResult list"
  cs_gameStartTime :: "int option"
  stepStartTime :: "int option"
  cs_totalGamesPlayed :: int
  totalChainsCompleted :: int
  bestScore :: real
  history :: "ChainHistoryEntry list"

definition chain_initial :: ChainGameState where
  "chain_initial =
     \<lparr>cs_difficulty = D2, cs_phase = CSetup, chain = None, currentStepIndex = 0,
      stepResults = [], cs_gameStartTime = None, stepStartTime = None,
      cs_totalGamesPlayed = 0, totalChainsCompleted = 0, bestScore = 0, history = []\<rparr>"

definition chain_setDifficulty :: "Difficulty \<Rightarrow> ChainGameState \<Rightarrow> ChainGameState" where
  "chain_setDifficulty d s = s\<lparr>cs_difficulty := d\<rparr>"

definition chain_startGame ::
  "rand \<Rightarrow> nat \<Rightarrow> int \<Rightarrow> ChainGameState \<Rightarrow> ChainGameState \<times> nat" where
  "chain_startGame rs p now s =
     (case generateDefaultChain rs p (cs_difficulty s) of
        (c, p') \<Rightarrow>
          (s\<lparr>cs_phase := CPlaying, chain := Some c, currentStepIndex := 0, stepResults := [],
             cs_gameStartTime := Some now, stepStartTime := Some now\<rparr>, p'))"

text \<open>
  \<open>submitAnswer\<close> and \<open>skipStep\<close> differ only in the result they record; both end
  with the same update of the phase, the index and the step clock.
\<close>

definition chain_record ::
  "GeneratedChain \<Rightarrow> ChainStepResult \<Rightarrow> int \<Rightarrow> ChainGameState \<Rightarrow> ChainGameState" where
  "chain_record c res now s =
     (let isLastStep = (currentStepIndex s \<ge> length (steps c) - 1)
      in s\<lparr>stepResults := stepResults s @ [res],
           cs_phase := (if isLastStep then CReview else CPlaying),
           currentStepIndex := (if isLastStep then currentStepIndex s
                                else currentStepIndex s + 1),
           stepStartTime := (if isLastStep then None else Some now)\<rparr>)"

definition chain_submitAnswer :: "int \<Rightarrow> int \<Rightarrow> ChainGameState \<Rightarrow> bool \<times> ChainGameState" where
  "chain_submitAnswer answer now s =
     (case chain s of
        None \<Rightarrow> (False, s)
      | Some c \<Rightarrow>
          if currentStepIndex s \<ge> length (steps c) then (False, s)
          else (let currentStep = steps c ! currentStepIndex s;
                    isCorrect = (answer = result currentStep);
                    res = \<lparr>sr_step = currentStep, sr_userAnswer = Some answer,
                           sr_isCorrect = isCorrect,
                           sr_timeMs = elapsed (stepStartTime s) now\<rparr>
                in (isCorrect, chain_record c res now s)))"

definition skipStep :: "int \<Rightarrow> ChainGameState \<Rightarrow> ChainGameState" where
  "skipStep now s =
     (case chain s of
        None \<Rightarrow> s
      | Some c \<Rightarrow>
          if currentStepIndex s \<ge> length (steps c) then s
          else (let currentStep = steps c ! currentStepIndex s;
                    res = \<lparr>sr_step = currentStep, sr_userAnswer = None, sr_isCorrect = False,
                           sr_timeMs = elapsed (stepStartTime s) now\<rparr>
                in chain_record c res now s))"

text \<open>
  The guard of \<open>nextStep\<close> is \<open>currentStepIndex < chain.steps.length - 1\<close>, a
  comparison of numbers, written here without the subtraction so that an empty
  list of steps compares as in the source.
\<close>

definition nextStep :: "int \<Rightarrow> ChainGameState \<Rightarrow> ChainGameState" where
  "nextStep now s =
     (case chain s of
        None \<Rightarrow> s
      | Some c \<Rightarrow>
          if currentStepIndex s + 1 < length (steps c)
          then s\<lparr>currentStepIndex := currentStepIndex s + 1, stepStartTime := Some now\<rparr>
          else s)"

definition reviewChain :: "ChainGameState \<Rightarrow> ChainGameState" where
  "reviewChain s = s\<lparr>cs_phase := CReview\<rparr>"

definition chain_endGame :: "int \<Rightarrow> ChainGameState \<Rightarrow> ChainGameState" where
  "chain_endGame now s =
     (case chain s of
        None \<Rightarrow> s\<lparr>cs_phase := CSetup\<rparr>
      | Some c \<Rightarrow>
          if length (stepResults s) = 0 then s\<lparr>cs_phase := CSetup\<rparr>
          else (let totalTimeMs = elapsed (cs_gameStartTime s) now;
                    nCorrect = int (length (filter sr_isCorrect (stepResults s)));
                    compl = (length (stepResults s) = length (steps c));
                    st = calculateChainStats (of_nat (length (stepResults s)))
                           (of_int nCorrect) (of_int totalTimeMs) compl;
                    entry = \<lparr>he_date = now, he_difficulty = cs_difficulty s, he_stats = st\<rparr>;
                    h = history s @ [entry]
                in s\<lparr>cs_phase := CComplete,
                     cs_totalGamesPlayed := cs_totalGamesPlayed s + 1,
                     totalChainsCompleted := (if compl then totalChainsCompleted s + 1
                                              else totalChainsCompleted s),
                     bestScore := max (bestScore s) (finalScore st),
                     history := drop (length h - 20) h\<rparr>))"

definition chain_resetGame :: "ChainGameState \<Rightarrow> ChainGameState" where
  "chain_resetGame s =
     s\<lparr>cs_phase := CSetup, chain := None, currentStepIndex := 0, stepResults := [],
       cs_gameStartTime := None, stepStartTime := None\<rparr>"

definition getSessionStats :: "int \<Rightarrow> ChainGameState \<Rightarrow> ChainStats option" where
  "getSessionStats now s =
     (case chain s of
        None \<Rightarrow> None
      | Some c \<Rightarrow>
          if length (stepResults s) = 0 then None
          else Some (calculateChainStats (of_nat (length (stepResults s)))
                       (of_int (int (length (filter sr_isCorrect (stepResults s)))))
                       (of_int (elapsed (cs_gameStartTime s) now))
                       (length (stepResults s) = length (steps c))))"

definition getCurrentStep :: "ChainGameState \<Rightarrow> ChainStep option" where
  "getCurrentStep s =
     (case chain s of
        None \<Rightarrow> None
      | Some c \<Rightarrow>
          if currentStepIndex s \<ge> length (steps c) then None
          else Some (steps c ! currentStepIndex s))"

datatype ChainAction =
  CSetDifficulty Difficulty
| CStartGame
| CSubmitAnswer int
| CSkipStep
| CNextStep
| CReviewChain
| CEndGame
| CResetGame

fun chain_step :: "rand \<Rightarrow> nat \<Rightarrow> int \<Rightarrow> ChainAction \<Rightarrow> ChainGameState \<Rightarrow> ChainGameState" where
  "chain_step rs p now (CSetDifficulty d) s = chain_setDifficulty d s"
| "chain_step rs p now CStartGame s = fst (chain_startGame rs p now s)"
| "chain_step rs p now (CSubmitAnswer a) s = snd (chain_submitAnswer a now s)"
| "chain_step rs p now CSkipStep s = skipStep now s"
| "chain_step rs p now CNextStep s = nextStep now s"
| "chain_step rs p now CReviewChain s = reviewChain s"
| "chain_step rs p now CEndGame s = chain_endGame now s"
| "chain_step rs p now CResetGame s = chain_resetGame s"

text \<open>
  The states the chain store can be in: the initial state, and every state an action
  leads to from one of them, whatever the random source and the clock give.
\<close>

inductive chain_reachable :: "ChainGameState \<Rightarrow> bool" where
  init: "chain_reachable chain_initial"
| step: "chain_reachable s \<Longrightarrow> chain_reachable (chain_step rs p now a s)"

text \<open>The step index points at a step of the chain, when there is a chain.\<close>

definition chain_index_ok :: "ChainGameState \<Rightarrow> bool" where
  "chain_index_ok s \<longleftrightarrow>
     (case chain s of None \<Rightarrow> True | Some c \<Rightarrow> currentStepIndex s < length (steps c))"

section \<open>Facts about binary64 rounding\<close>

lemma pow2_powr: "pow2 e = 2 powr (of_int e)"
proof (cases "0 \<le> e")
  case True
  then show ?thesis by (simp add: pow2_def powr_realpow[symmetric])
next
  case False
  then have "2 powr (of_int e) = 1 / (2 powr (of_int (- e)) :: real)"
    by (simp add: powr_minus divide_inverse)
  also have "\<dots> = 1 / 2 ^ nat (- e)"
    using False by (simp add: powr_realpow[symmetric])
  finally show ?thesis using False by (simp add: pow2_def)
qed

lemma pow2_pos: "0 < pow2 e"
  by (simp add: pow2_powr)

lemma pow2_add: "pow2 (a + b) = pow2 a * pow2 b"
  by (simp add: pow2_powr powr_add)

lemma pow2_less_iff: "pow2 a < pow2 b \<longleftrightarrow> a < b"
  by (simp add: pow2_powr)

lemma real_of_int_le: "(a::int) \<le> b \<Longrightarrow> real_of_int a \<le> real_of_int b"
  by simp

lemma ilog2_bounds:
  assumes "0 < x"
  shows "pow2 (ilog2 x) \<le> x" and "x < pow2 (ilog2 x + 1)"
proof -
  have "pow2 (ilog2 x) \<le> x \<and> x < pow2 (ilog2 x + 1)"
  proof (cases "1 \<le> x")
    case True
    define n where "n = \<lfloor>x\<rfloor>"
    have n1: "1 \<le> n" using True by (simp add: n_def le_floor_iff)
    then have n0: "0 < n" by simp
    have b1: "1 \<le> bitlen n" using n0 by (simp add: bitlen_alt_def)
    from bitlen_bounds[OF n0] have lo: "2 ^ nat (bitlen n - 1) \<le> n" and hi: "n < 2 ^ nat (bitlen n)"
      by auto
    have "(2::real) ^ nat (bitlen n - 1) \<le> real_of_int n"
      using real_of_int_le[OF lo] by simp
    also have "\<dots> \<le> x" by (simp add: n_def)
    finally have A: "pow2 (bitlen n - 1) \<le> x" using b1 by (simp add: pow2_def)
    have "n + 1 \<le> 2 ^ nat (bitlen n)" using hi by simp
    then have "real_of_int (n + 1) \<le> 2 ^ nat (bitlen n)"
      using real_of_int_le[of "n + 1" "2 ^ nat (bitlen n)"] by simp
    moreover have "x < real_of_int (n + 1)" by (simp add: n_def)
    ultimately have B: "x < pow2 (bitlen n)" using b1 by (simp add: pow2_def)
    show ?thesis using A B True by (simp add: ilog2_def n_def)
  next
    case False
    define y where "y = 1 / x"
    have y1: "1 < y" using False assms by (simp add: y_def)
    define m where "m = \<lceil>y\<rceil> - 1"
    have m0: "0 < m" using y1 by (simp add: m_def less_ceiling_iff)
    have my: "real_of_int m < y" by (simp add: m_def) linarith
    have ym: "y \<le> real_of_int (m + 1)" by (simp add: m_def)
    have b1: "1 \<le> bitlen m" using m0 by (simp add: bitlen_alt_def)
    from bitlen_bounds[OF m0] have lo: "2 ^ nat (bitlen m - 1) \<le> m" and hi: "m < 2 ^ nat (bitlen m)"
      by auto
    have "m + 1 \<le> 2 ^ nat (bitlen m)" using hi by simp
    then have "real_of_int (m + 1) \<le> 2 ^ nat (bitlen m)"
      using real_of_int_le[of "m + 1" "2 ^ nat (bitlen m)"] by simp
    then have yhi: "y \<le> 2 ^ nat (bitlen m)" using ym by linarith
    have "(2::real) ^ nat (bitlen m - 1) \<le> real_of_int m"
      using real_of_int_le[OF lo] by simp
    then have ylo: "2 ^ nat (bitlen m - 1) < y" using my by linarith
    have x_eq: "x = 1 / y" by (simp add: y_def)
    have A: "pow2 (- bitlen m) \<le> x"
    proof -
      have "1 / 2 ^ nat (bitlen m) \<le> 1 / y"
        using yhi y1 by (intro divide_left_mono) auto
      then show ?thesis using b1 by (simp add: pow2_def x_eq)
    qed
    have B: "x < pow2 (- bitlen m + 1)"
    proof -
      have "1 / y < 1 / 2 ^ nat (bitlen m - 1)"
        using ylo y1 by (intro divide_strict_left_mono) auto
      moreover have "pow2 (- bitlen m + 1) = 1 / 2 ^ nat (bitlen m - 1)"
        using b1 by (cases "bitlen m = 1") (auto simp: pow2_def)
      ultimately show ?thesis by (simp add: x_eq)
    qed
    show ?thesis using A B False by (simp add: ilog2_def y_def m_def)
  qed
  then show "pow2 (ilog2 x) \<le> x" and "x < pow2 (ilog2 x + 1)" by auto
qed

lemma ilog2_unique:
  assumes "pow2 e \<le> x" "x < pow2 (e + 1)"
  shows "ilog2 x = e"
proof -
  have x0: "0 < x" using assms(1) pow2_pos[of e] by linarith
  have "pow2 (ilog2 x) < pow2 (e + 1)" using ilog2_bounds(1)[OF x0] assms(2) by linarith
  then have "ilog2 x < e + 1" by (simp add: pow2_less_iff)
  moreover have "pow2 e < pow2 (ilog2 x + 1)" using ilog2_bounds(2)[OF x0] assms(1) by linarith
  then have "e < ilog2 x + 1" by (simp add: pow2_less_iff)
  ultimately show ?thesis by simp
qed

lemma rhe_err: "\<bar>of_int (rhe y) - y\<bar> \<le> 1 / 2"
  unfolding rhe_def Let_def by (auto simp: abs_le_iff)

lemma rhe_nonneg: "0 \<le> y \<Longrightarrow> 0 \<le> rhe y"
  unfolding rhe_def Let_def by auto

lemma rhe_of_int: "rhe (of_int k) = k"
  unfolding rhe_def Let_def by simp

lemma fl_ulp: "x \<noteq> 0 \<Longrightarrow> fl x = of_int (rhe (x / ulp x)) * ulp x"
  by (simp add: fl_def)

lemma fl_zero: "fl 0 = 0"
  by (simp add: fl_def)

lemma ulp_pos: "0 < ulp x"
  by (simp add: ulp_def pow2_pos)

lemma fl_nonneg: "0 \<le> x \<Longrightarrow> 0 \<le> fl x"
proof (cases "x = 0")
  case True
  then show ?thesis by (simp add: fl_def)
next
  case False
  assume "0 \<le> x"
  then have "0 \<le> x / ulp x" using ulp_pos[of x] by simp
  then have "0 \<le> rhe (x / ulp x)" by (rule rhe_nonneg)
  then show ?thesis using False ulp_pos[of x] by (simp add: fl_ulp)
qed

lemma fl_err: "\<bar>fl x - x\<bar> \<le> ulp x / 2"
proof (cases "x = 0")
  case True
  then show ?thesis using ulp_pos[of x] by (simp add: fl_def)
next
  case False
  have u: "0 < ulp x" by (rule ulp_pos)
  have "fl x - x = (of_int (rhe (x / ulp x)) - x / ulp x) * ulp x"
    using False u by (simp add: fl_ulp algebra_simps)
  then have "\<bar>fl x - x\<bar> = \<bar>of_int (rhe (x / ulp x)) - x / ulp x\<bar> * ulp x"
    using u by (simp add: abs_mult)
  also have "\<dots> \<le> (1 / 2) * ulp x"
    using rhe_err[of "x / ulp x"] u by (intro mult_right_mono) auto
  finally show ?thesis by simp
qed

lemma ulp_le:
  assumes "x \<noteq> 0"
  shows "ulp x \<le> max (\<bar>x\<bar> / 2 ^ 52) (pow2 (- 1074))"
proof (cases "ilog2 \<bar>x\<bar> - 52 \<le> - 1074")
  case True
  then show ?thesis by (simp add: ulp_def max_def)
next
  case False
  then have "ulp x = pow2 (ilog2 \<bar>x\<bar> + (- 52))" by (simp add: ulp_def max_def)
  also have "\<dots> = pow2 (ilog2 \<bar>x\<bar>) * pow2 (- 52)" by (rule pow2_add)
  also have "\<dots> \<le> \<bar>x\<bar> * pow2 (- 52)"
    using ilog2_bounds(1)[of "\<bar>x\<bar>"] assms pow2_pos[of "- 52"] by (intro mult_right_mono) auto
  also have "\<dots> = \<bar>x\<bar> / 2 ^ 52" by (simp add: pow2_def)
  finally show ?thesis by simp
qed

lemma fl_of_int:
  assumes "\<bar>k\<bar> < 2 ^ 53"
  shows "fl (of_int k) = of_int k"
proof (cases "k = 0")
  case True
  then show ?thesis by (simp add: fl_def)
next
  case False
  define x where "x = \<bar>real_of_int k\<bar>"
  define e where "e = ilog2 x"
  have x1: "1 \<le> x" using False by (simp add: x_def)
  then have x0: "0 < x" by simp
  have xlt: "x < 2 ^ 53"
  proof -
    have "real_of_int \<bar>k\<bar> < real_of_int (2 ^ 53)" using assms by linarith
    then show ?thesis by (simp add: x_def)
  qed
  have "pow2 e < pow2 53" using ilog2_bounds(1)[OF x0] xlt by (simp add: e_def pow2_def)
  then have e_hi: "e < 53" by (simp add: pow2_less_iff)
  have "pow2 0 < pow2 (e + 1)" using ilog2_bounds(2)[OF x0] x1 by (simp add: e_def pow2_def)
  then have e_lo: "0 \<le> e" by (simp add: pow2_less_iff)
  have u: "ulp (of_int k) = 1 / 2 ^ nat (52 - e)"
    using e_hi e_lo by (simp add: ulp_def x_def[symmetric] e_def[symmetric] max_def pow2_def)
  have "real_of_int k / ulp (of_int k) = of_int (k * 2 ^ nat (52 - e))"
    by (simp add: u)
  then have "rhe (real_of_int k / ulp (of_int k)) = k * 2 ^ nat (52 - e)"
    by (simp only: rhe_of_int)
  then show ?thesis using False by (simp add: fl_ulp) (simp add: u)
qed

lemma double_below_one:
  assumes "is_double r" "0 \<le> r" "r < 1"
  shows "r \<le> 1 - 1 / 2 ^ 53"
proof (rule ccontr)
  assume "\<not> r \<le> 1 - 1 / 2 ^ 53"
  then have big: "1 - 1 / 2 ^ 53 < r" by simp
  then have half: "1 / 2 \<le> r" by simp
  have e: "ilog2 \<bar>r\<bar> = - 1"
    using half assms(3) by (intro ilog2_unique) (simp_all add: pow2_def)
  have u: "ulp r = 1 / 2 ^ 53" by (simp add: ulp_def e pow2_def)
  have r0: "r \<noteq> 0" using half by simp
  define k where "k = rhe (r / ulp r)"
  have "of_int k * (1 / 2 ^ 53) = r"
    using assms(1) r0 by (simp add: is_double_def fl_ulp k_def u)
  then have r_eq: "r = of_int k / 2 ^ 53" by simp
  have "real_of_int k < 2 ^ 53" using assms(3) by (simp add: r_eq)
  then have "k < 2 ^ 53" by (metis of_int_less_iff of_int_numeral of_int_power)
  then have "k \<le> 2 ^ 53 - 1" by simp
  then have "real_of_int k \<le> real_of_int (2 ^ 53 - 1)" by linarith
  then have "r \<le> 1 - 1 / 2 ^ 53" by (simp add: r_eq field_simps)
  then show False using big by simp
qed

lemma fl_scaled_unit:
  assumes r: "is_double r" "0 \<le> r" "r < 1" and n: "1 \<le> n"
  shows "0 \<le> fl (r * of_int n)" and "fl (r * of_int n) < of_int n"
proof -
  define x where "x = r * real_of_int n"
  have x0: "0 \<le> x" using r(2) n by (simp add: x_def)
  show "0 \<le> fl (r * of_int n)" using fl_nonneg[OF x0] by (simp add: x_def)
  have rb: "r \<le> 1 - 1 / 2 ^ 53" by (rule double_below_one[OF r])
  have n1: "1 \<le> real_of_int n" using n by simp
  have xb: "x \<le> of_int n * (1 - 1 / 2 ^ 53)"
    unfolding x_def using rb n1 by (simp add: mult.commute mult_left_mono)
  have "fl x < of_int n"
  proof (cases "x = 0")
    case True
    then show ?thesis using n1 by (simp add: fl_def)
  next
    case False
    then have xpos: "0 < x" using x0 by simp
    have "fl x \<le> x + ulp x / 2" using fl_err[of x] by linarith
    moreover have "ulp x / 2 < of_int n / 2 ^ 53"
    proof -
      have "ulp x \<le> max (x / 2 ^ 52) (pow2 (- 1074))" using ulp_le[OF False] xpos by simp
      moreover have "x / 2 ^ 52 < of_int n / 2 ^ 52 * 1"
        using xb n1 by (simp add: field_simps)
      moreover have "pow2 (- 1074) < of_int n / 2 ^ 52 * 1"
      proof -
        have "pow2 (- 1074) < pow2 (- 52)" by (simp add: pow2_less_iff)
        also have "\<dots> = 1 / 2 ^ 52" by (simp add: pow2_def)
        also have "\<dots> \<le> of_int n / 2 ^ 52" using n1 by (simp add: divide_right_mono)
        finally show ?thesis by simp
      qed
      ultimately have "ulp x < of_int n / 2 ^ 52" by (simp add: max_def split: if_splits)
      then show ?thesis by simp
    qed
    ultimately show ?thesis using xb by (simp add: field_simps)
  qed
  then show "fl (r * of_int n) < of_int n" by (simp add: x_def)
qed

lemma floor_fl_div:
  assumes a: "0 \<le> a" "a < 2 ^ 53" and b: "0 < b" "b < 2 ^ 53"
  shows "\<lfloor>fl (of_int a / of_int b)\<rfloor> = a div b"
proof -
  define q where "q = a div b"
  define m where "m = a mod b"
  have a_eq: "a = q * b + m" by (simp add: q_def m_def)
  have m_bounds: "0 \<le> m" "m < b" using b by (simp_all add: m_def)
  have q0: "0 \<le> q" using a b by (simp add: q_def pos_imp_zdiv_nonneg_iff)
  have "q * 1 \<le> q * b" using q0 b by (intro mult_left_mono) auto
  then have qa: "q \<le> a" using a_eq m_bounds(1) by linarith
  have rb: "0 < real_of_int b" using b by simp
  define x where "x = real_of_int a / real_of_int b"
  have x_eq: "x = of_int q + of_int m / of_int b"
    using rb by (simp add: x_def a_eq field_simps)
  show ?thesis
  proof (cases "m = 0")
    case True
    then have "x = of_int q" by (simp add: x_eq)
    moreover have "\<bar>q\<bar> < 2 ^ 53" using q0 qa a by simp
    ultimately have "fl x = of_int q" by (simp add: fl_of_int)
    then show ?thesis by (simp add: x_def q_def)
  next
    case False
    then have m1: "1 \<le> m" using m_bounds by simp
    have a1: "1 \<le> a" using a_eq m1 q0 b by (smt (verit) mult_nonneg_nonneg)
    have frac_lo: "1 / real_of_int b \<le> of_int m / of_int b"
      using m1 rb by (simp add: divide_right_mono)
    have "m \<le> b - 1" using m_bounds by simp
    then have "real_of_int m \<le> real_of_int b - 1" by linarith
    then have frac_hi: "of_int m / of_int b \<le> 1 - 1 / real_of_int b"
      using rb by (simp add: field_simps)
    have xpos: "0 < x" using a1 rb by (simp add: x_def)
    have ra: "real_of_int a < 2 ^ 53"
      using a(2) by (metis of_int_less_iff of_int_numeral of_int_power)
    have rb53: "real_of_int b < 2 ^ 53"
      using b(2) by (metis of_int_less_iff of_int_numeral of_int_power)
    have e1: "x / 2 ^ 52 < 2 / real_of_int b"
      using ra rb by (simp add: x_def field_simps)
    have e2: "pow2 (- 1074) < 2 / real_of_int b"
    proof -
      have "pow2 (- 1074) < pow2 (- 52)" by (simp add: pow2_less_iff)
      also have "\<dots> = 2 / 2 ^ 53" by (simp add: pow2_def)
      also have "\<dots> < 2 / real_of_int b"
        using rb rb53 by (intro divide_strict_left_mono) auto
      finally show ?thesis .
    qed
    have "ulp x \<le> max (x / 2 ^ 52) (pow2 (- 1074))"
      using ulp_le[of x] xpos by simp
    then have "ulp x < 2 / real_of_int b" using e1 e2 by (simp add: max_def split: if_splits)
    then have err: "\<bar>fl x - x\<bar> < 1 / real_of_int b" using fl_err[of x] by simp
    have "of_int q < fl x" using err frac_lo x_eq by linarith
    moreover have "fl x < of_int q + 1" using err frac_hi x_eq by linarith
    ultimately have "\<lfloor>fl x\<rfloor> = q" by (simp add: floor_eq_iff)
    then show ?thesis by (simp add: x_def q_def)
  qed
qed

subsection \<open>Sampling from the random source\<close>

lemma rand_okD:
  assumes "rand_ok rs"
  shows "is_double (rs i)" and "0 \<le> rs i" and "rs i < 1"
  using assms by (simp_all add: rand_ok_def)

lemma randomInt_range:
  assumes "is_double r" "0 \<le> r" "r < 1" "mn \<le> mx"
  shows "mn \<le> randomInt mn mx r" and "randomInt mn mx r \<le> mx"
proof -
  define n where "n = mx - mn + 1"
  have n1: "1 \<le> n" using assms(4) by (simp add: n_def)
  have lo: "0 \<le> fl (r * of_int n)" and hi: "fl (r * of_int n) < of_int n"
    using fl_scaled_unit[OF assms(1-3) n1] by auto
  have "0 \<le> \<lfloor>fl (r * of_int n)\<rfloor>" using lo by simp
  moreover have "\<lfloor>fl (r * of_int n)\<rfloor> < n" using hi by (simp add: floor_less_iff)
  ultimately show "mn \<le> randomInt mn mx r" and "randomInt mn mx r \<le> mx"
    by (simp_all add: randomInt_def fmul_def n_def)
qed

lemma randomInRange_eq: "randomInRange = randomInt"
  by (simp add: fun_eq_iff randomInRange_def randomInt_def)

lemma rand_ok_const0: "rand_ok (rand_const 0)"
  by (simp add: rand_ok_def rand_const_def is_double_def fl_def)

lemma rand_ok_const: "is_double r \<Longrightarrow> 0 \<le> r \<Longrightarrow> r < 1 \<Longrightarrow> rand_ok (rand_const r)"
  by (simp add: rand_ok_def rand_const_def)

lemma is_double_0: "is_double 0"
  by (simp add: is_double_def fl_def)

lemma is_double_half: "is_double (1 / 2)"
  unfolding is_double_def by code_simp

lemma js_rem_pos: "0 \<le> a \<Longrightarrow> 0 < b \<Longrightarrow> js_rem a b = a mod b"
  by (cases "a = 0") (simp_all add: js_rem_def)

section \<open>Answer validation\<close>

text \<open>
  Claim C7. \<open>validateRemainderAnswer\<close> returns true exactly when the answer is the
  canonical remainder, or negative remainders are accepted and the answer is the
  negative remainder, or the problem is exactly divisible and the answer is 0. For
  87 divided by 5 (remainder 2, negative remainder -3) with negatives accepted, the
  answer -3 is correct.
\<close>

theorem validateRemainderAnswer_iff:
  "(validateRemainderAnswer problem u acceptNegative \<longleftrightarrow>
      u = remainder problem \<or> (acceptNegative \<and> u = negativeRemainder problem) \<or>
      (isDivisible problem \<and> u = 0))
   \<and> validateRemainderAnswer
        \<lparr>dividend = 87, divisor = 5, quotient = 17, remainder = 2, negativeRemainder = - 3,
         isDivisible = False, dp_difficulty = d\<rparr> (- 3) True"
  by (auto simp: validateRemainderAnswer_def)

lemma calculatePercentage_53_81: "calculatePercentage 53 81 2 = fl (6543 / 100)"
  by code_simp

lemma percentage_accepts_65435: "isPercentageCorrect (fl (65435 / 1000)) (fl (6543 / 100)) 2"
  by code_simp

lemma percentage_rejects_6550: "\<not> isPercentageCorrect (fl (6550 / 100)) (fl (6543 / 100)) 2"
  by code_simp

lemma percentage_rejects_6544: "\<not> isPercentageCorrect (fl (6544 / 100)) (fl (6543 / 100)) 2"
  by code_simp

text \<open>
  Claim C2, as the specification states it, fails: with the correct answer 65.43 and
  two decimal places, the input 65.44 is 0.01 away from the answer, twice the
  tolerance, and is rejected.
\<close>

theorem isPercentageCorrect_6544_counterexample:
  "isPercentageCorrect (fl (6544 / 100)) (fl (6543 / 100)) 2 = False"
  by code_simp

text \<open>
  Claim C2, amended. \<open>isPercentageCorrect\<close> returns true exactly when the absolute
  value of the (binary64) difference of the two answers is at most the tolerance,
  0.05 for one decimal place and 0.005 otherwise, the bound included. With the
  correct answer 65.43 and two decimal places it accepts 65.435 and rejects both
  65.44 and 65.50.
\<close>

theorem isPercentageCorrect_iff:
  "(isPercentageCorrect u c places \<longleftrightarrow>
      \<bar>fsub u c\<bar> \<le> (if places = 1 then fl (5 / 100) else fl (5 / 1000)))
   \<and> isPercentageCorrect (fl (65435 / 1000)) (fl (6543 / 100)) 2
   \<and> \<not> isPercentageCorrect (fl (6544 / 100)) (fl (6543 / 100)) 2
   \<and> \<not> isPercentageCorrect (fl (6550 / 100)) (fl (6543 / 100)) 2"
proof (intro conjI)
  show "isPercentageCorrect u c places \<longleftrightarrow>
      \<bar>fsub u c\<bar> \<le> (if places = 1 then fl (5 / 100) else fl (5 / 1000))"
    by (simp add: isPercentageCorrect_def Let_def)
qed (rule percentage_accepts_65435 percentage_rejects_6544 percentage_rejects_6550)+

section \<open>Chain scoring\<close>

lemma calculateChainStats_example:
  "calculateChainStats 10 8 30000 True =
     \<lparr>totalSteps = 10, correctSteps = 8, accuracy = 80, averageTimePerStep = 3,
      completed = True, finalScore = 310\<rparr>"
  by code_simp

lemma calculateChainStats_score_305: "finalScore (calculateChainStats 10 8 34500 True) = 305"
  by code_simp

lemma spec_finalScore_306: "spec_finalScore 10 8 34500 True = 306"
  by code_simp

text \<open>
  Beyond \<open>2 ^ 53\<close> the products and sums of the score are rounded as well: for one
  step and \<open>2 ^ 53 - 1\<close> correct answers the score is the binary64 value below, not
  the exact sum 1891511843495608160.
\<close>

lemma calculateChainStats_score_large:
  "finalScore (calculateChainStats 1 9007199254740991 0 False) = 1891511843495608064"
  by code_simp

text \<open>
  Claim C8, as the specification states it, fails when its formula is read in exact
  arithmetic. For 10 steps, 8 of them correct, in 34500 ms, the average time is 3.45 s
  and \<open>(5 - 3.45) * 10\<close> is exactly 15.5, which rounds to 16: the formula gives 306. The
  code computes \<open>5 - 3.45\<close> in binary64, gets 15.499999999999998 after the
  multiplication, rounds it to 15 and returns 305.
\<close>

theorem calculateChainStats_exact_counterexample:
  "finalScore (calculateChainStats 10 8 34500 True) = 305
   \<and> spec_finalScore 10 8 34500 True = 306"
  using calculateChainStats_score_305 spec_finalScore_306 by simp

text \<open>
  Claim C8, amended. For a positive number of steps, \<open>calculateChainStats\<close> computes,
  every operation being the binary64 one, the accuracy \<open>correctSteps / totalSteps *
  100\<close> and the average time per step \<open>totalTimeMs / totalSteps / 1000\<close>, and the final
  score is the sum, from left to right, of \<open>correctSteps * 10\<close>, of the rounded double
  of the accuracy, of the rounded tenfold of \<open>5 - average\<close> when the average is below 5,
  and of 50 when the chain was completed. The \<open>accuracy\<close> field of the result holds the
  accuracy rounded to a whole number. For 10 steps, 8 correct and completed, the score
  is 310 after 30000 ms and 305 after 34500 ms.
\<close>

theorem calculateChainStats_finalScore:
  "(0 < nTotal \<longrightarrow>
      finalScore (calculateChainStats nTotal nCorrect totalTimeMs compl) =
        fadd (fadd (fadd (fmul nCorrect 10)
                 (of_int (Math_round (fmul (fmul (fdiv nCorrect nTotal) 100) 2))))
               (if fdiv (fdiv totalTimeMs nTotal) 1000 < 5
                then of_int (Math_round (fmul (fsub 5 (fdiv (fdiv totalTimeMs nTotal) 1000)) 10))
                else 0))
          (if compl then 50 else 0)
      \<and> accuracy (calculateChainStats nTotal nCorrect totalTimeMs compl) =
          Math_round (fmul (fdiv nCorrect nTotal) 100))
   \<and> finalScore (calculateChainStats 10 8 30000 True) = 310
   \<and> finalScore (calculateChainStats 10 8 34500 True) = 305"
  by (simp add: calculateChainStats_def[of nTotal] Let_def calculateChainStats_example
      calculateChainStats_score_305)

theorem calculateChainStats_finalScore_witness:
  "(0::real) < 10
   \<and> finalScore (calculateChainStats 10 8 30000 True) =
        fadd (fadd (fadd (fmul 8 10)
                 (of_int (Math_round (fmul (fmul (fdiv 8 10) 100) 2))))
               (if fdiv (fdiv 30000 10) 1000 < 5
                then of_int (Math_round (fmul (fsub 5 (fdiv (fdiv 30000 10) 1000)) 10))
                else 0))
          (if True then 50 else 0)
   \<and> accuracy (calculateChainStats 10 8 30000 True) = Math_round (fmul (fdiv 8 10) 100)"
proof -
  have h: "(0::real) < 10" by simp
  from calculateChainStats_finalScore[of 10 8 30000 True] h show ?thesis
    by blast
qed

section \<open>Generated chains\<close>

lemma chain_loop_length:
  "length (fst (chain_loop rs d totalLen i cur acc p)) = length acc + nat (totalLen + 1 - i)"
proof (induction rs d totalLen i cur acc p rule: chain_loop.induct)
  case (1 rs d totalLen i cur acc p)
  show ?case
  proof (cases "i \<le> totalLen")
    case True
    then show ?thesis
      using "1.IH"[OF True refl refl refl refl]
      by (subst chain_loop.simps) (simp add: Let_def nat_diff_distrib)
  next
    case False
    then show ?thesis by (subst chain_loop.simps) simp
  qed
qed

lemma chain_loop_links:
  assumes "\<forall>k<length acc. result (acc ! k) = previousResult (acc ! k) + addend (acc ! k)"
    and "\<forall>k. Suc k < length acc \<longrightarrow> previousResult (acc ! Suc k) = result (acc ! k)"
    and "acc \<noteq> []" and "result (last acc) = cur"
  shows "(\<forall>k<length (fst (chain_loop rs d totalLen i cur acc p)).
            result (fst (chain_loop rs d totalLen i cur acc p) ! k) =
            previousResult (fst (chain_loop rs d totalLen i cur acc p) ! k) +
            addend (fst (chain_loop rs d totalLen i cur acc p) ! k))
       \<and> (\<forall>k. Suc k < length (fst (chain_loop rs d totalLen i cur acc p)) \<longrightarrow>
            previousResult (fst (chain_loop rs d totalLen i cur acc p) ! Suc k) =
            result (fst (chain_loop rs d totalLen i cur acc p) ! k))"
  using assms
proof (induction rs d totalLen i cur acc p rule: chain_loop.induct)
  case (1 rs d totalLen i cur acc p)
  show ?case
  proof (cases "i \<le> totalLen")
    case True
    define a where "a = randomInt (rmin (getAddendRange i d)) (rmax (getAddendRange i d)) (rs p)"
    define st where
      "st = \<lparr>stepNumber = i, previousResult = cur, addend = a, result = cur + a\<rparr>"
    have A: "\<forall>k<length (acc @ [st]).
               result ((acc @ [st]) ! k) = previousResult ((acc @ [st]) ! k) + addend ((acc @ [st]) ! k)"
      using "1.prems"(1) by (auto simp: nth_append st_def)
    have B: "\<forall>k. Suc k < length (acc @ [st]) \<longrightarrow>
               previousResult ((acc @ [st]) ! Suc k) = result ((acc @ [st]) ! k)"
    proof (intro allI impI)
      fix k assume k: "Suc k < length (acc @ [st])"
      show "previousResult ((acc @ [st]) ! Suc k) = result ((acc @ [st]) ! k)"
      proof (cases "Suc k < length acc")
        case True
        then show ?thesis using "1.prems"(2) by (simp add: nth_append)
      next
        case False
        then have e: "Suc k = length acc" using k by simp
        then have "k = length acc - 1" by simp
        then have "acc ! k = last acc" using "1.prems"(3) by (simp add: last_conv_nth)
        then show ?thesis using e "1.prems"(4) by (simp add: nth_append st_def)
      qed
    qed
    have C: "acc @ [st] \<noteq> []" by simp
    have D: "result (last (acc @ [st])) = cur + a" by (simp add: st_def)
    have step: "chain_loop rs d totalLen i cur acc p =
                chain_loop rs d totalLen (i + 1) (cur + a) (acc @ [st]) (p + 1)"
      using True by (subst chain_loop.simps) (simp add: Let_def a_def st_def)
    show ?thesis
      unfolding step
      using "1.IH"[OF True refl refl refl refl, folded a_def, folded st_def, OF A B C D] .
  next
    case False
    then have "chain_loop rs d totalLen i cur acc p = (acc, cur, p)"
      by (subst chain_loop.simps) simp
    then show ?thesis using "1.prems" by simp
  qed
qed

lemma generateChain_steps:
  "steps (fst (generateChain rs p config)) =
     fst (chain_loop rs (cc_difficulty config)
            (randomInt (minLength config) (maxLength config) (rs p)) 2
            (fst (fst (generateStartingPair rs (p + 1) (cc_difficulty config)))
             + snd (fst (generateStartingPair rs (p + 1) (cc_difficulty config))))
            [\<lparr>stepNumber = 1,
              previousResult = fst (fst (generateStartingPair rs (p + 1) (cc_difficulty config))),
              addend = snd (fst (generateStartingPair rs (p + 1) (cc_difficulty config))),
              result = fst (fst (generateStartingPair rs (p + 1) (cc_difficulty config)))
                       + snd (fst (generateStartingPair rs (p + 1) (cc_difficulty config)))\<rparr>]
            (snd (generateStartingPair rs (p + 1) (cc_difficulty config))))"
  by (simp add: generateChain_def Let_def split: prod.splits)

lemma generateChain_length:
  "int (length (steps (fst (generateChain rs p config)))) =
     max 1 (randomInt (minLength config) (maxLength config) (rs p))"
  by (simp add: generateChain_steps chain_loop_length)

lemma generateChain_links:
  "(\<forall>k<length (steps (fst (generateChain rs p config))).
      result (steps (fst (generateChain rs p config)) ! k) =
      previousResult (steps (fst (generateChain rs p config)) ! k) +
      addend (steps (fst (generateChain rs p config)) ! k))
   \<and> (\<forall>k. Suc k < length (steps (fst (generateChain rs p config))) \<longrightarrow>
      previousResult (steps (fst (generateChain rs p config)) ! Suc k) =
      result (steps (fst (generateChain rs p config)) ! k))"
  unfolding generateChain_steps by (rule chain_loop_links) simp_all

text \<open>
  Claim C3, as the specification states it, fails: the first step is pushed before the
  sampled length is looked at, so for \<open>minLength = maxLength = 0\<close> the chain has one
  step, which is not within \<open>[0, 0]\<close>.
\<close>

theorem generateChain_length_counterexample:
  "\<not> int (length (steps (fst (generateChain (rand_const 0) 0
            \<lparr>minLength = 0, maxLength = 0, cc_difficulty = D1\<rparr>))))
       \<le> maxLength \<lparr>minLength = 0, maxLength = 0, cc_difficulty = D1\<rparr>"
  by code_simp

lemma generateChain_example_length:
  "length (steps (fst (generateChain (rand_const (1 / 2)) 0
             \<lparr>minLength = 0, maxLength = 3, cc_difficulty = D1\<rparr>))) = 2"
  by code_simp

text \<open>
  Claim C3, amended. On a random source that meets the contract of \<open>Math.random\<close>,
  every chain returned by \<open>generateChain\<close> for \<open>minLength \<le> maxLength\<close> and
  \<open>1 \<le> maxLength\<close> has a number of steps within \<open>[minLength, maxLength]\<close>. For every
  configuration and every source, each step's result is its previous result plus its
  addend, and each step's previous result is the result of the step before it.
\<close>

theorem generateChain_length_and_links:
  "(rand_ok rs \<and> minLength config \<le> maxLength config \<and> 1 \<le> maxLength config \<longrightarrow>
      minLength config \<le> int (length (steps (fst (generateChain rs p config))))
      \<and> int (length (steps (fst (generateChain rs p config)))) \<le> maxLength config)
   \<and> (\<forall>k<length (steps (fst (generateChain rs p config))).
        result (steps (fst (generateChain rs p config)) ! k) =
        previousResult (steps (fst (generateChain rs p config)) ! k) +
        addend (steps (fst (generateChain rs p config)) ! k))
   \<and> (\<forall>k. Suc k < length (steps (fst (generateChain rs p config))) \<longrightarrow>
        previousResult (steps (fst (generateChain rs p config)) ! Suc k) =
        result (steps (fst (generateChain rs p config)) ! k))"
proof -
  have "minLength config \<le> int (length (steps (fst (generateChain rs p config))))
      \<and> int (length (steps (fst (generateChain rs p config)))) \<le> maxLength config"
    if ok: "rand_ok rs" and le: "minLength config \<le> maxLength config"
      and hi: "1 \<le> maxLength config"
  proof -
    have "minLength config \<le> randomInt (minLength config) (maxLength config) (rs p)"
      and "randomInt (minLength config) (maxLength config) (rs p) \<le> maxLength config"
      using randomInt_range[OF rand_okD[OF ok] le] by auto
    then show ?thesis using hi by (simp add: generateChain_length)
  qed
  then show ?thesis using generateChain_links[of rs p config] by blast
qed

theorem generateChain_length_and_links_witness:
  "rand_ok (rand_const (1 / 2))
   \<and> minLength \<lparr>minLength = 0, maxLength = 3, cc_difficulty = D1\<rparr>
       \<le> maxLength \<lparr>minLength = 0, maxLength = 3, cc_difficulty = D1\<rparr>
   \<and> (1::int) \<le> maxLength \<lparr>minLength = 0, maxLength = 3, cc_difficulty = D1\<rparr>
   \<and> 0 \<le> int (length (steps (fst (generateChain (rand_const (1 / 2)) 0
                \<lparr>minLength = 0, maxLength = 3, cc_difficulty = D1\<rparr>))))
   \<and> int (length (steps (fst (generateChain (rand_const (1 / 2)) 0
                \<lparr>minLength = 0, maxLength = 3, cc_difficulty = D1\<rparr>)))) \<le> 3
   \<and> Suc 0 < length (steps (fst (generateChain (rand_const (1 / 2)) 0
                \<lparr>minLength = 0, maxLength = 3, cc_difficulty = D1\<rparr>)))
   \<and> previousResult (steps (fst (generateChain (rand_const (1 / 2)) 0
                \<lparr>minLength = 0, maxLength = 3, cc_difficulty = D1\<rparr>)) ! Suc 0)
       = result (steps (fst (generateChain (rand_const (1 / 2)) 0
                \<lparr>minLength = 0, maxLength = 3, cc_difficulty = D1\<rparr>)) ! 0)"
proof -
  have ok: "rand_ok (rand_const (1 / 2))"
    by (rule rand_ok_const[OF is_double_half]) simp_all
  have h1: "minLength \<lparr>minLength = 0, maxLength = 3, cc_difficulty = D1\<rparr>
              \<le> maxLength \<lparr>minLength = 0, maxLength = 3, cc_difficulty = D1\<rparr>"
    by simp
  have h2: "(1::int) \<le> maxLength \<lparr>minLength = 0, maxLength = 3, cc_difficulty = D1\<rparr>"
    by simp
  have two: "Suc 0 < length (steps (fst (generateChain (rand_const (1 / 2)) 0
                \<lparr>minLength = 0, maxLength = 3, cc_difficulty = D1\<rparr>)))"
    by (simp add: generateChain_example_length)
  note th = generateChain_length_and_links[of "rand_const (1 / 2)"
      "\<lparr>minLength = 0, maxLength = 3, cc_difficulty = D1\<rparr>" 0]
  from th ok h1 h2
  have len: "0 \<le> int (length (steps (fst (generateChain (rand_const (1 / 2)) 0
                \<lparr>minLength = 0, maxLength = 3, cc_difficulty = D1\<rparr>))))
         \<and> int (length (steps (fst (generateChain (rand_const (1 / 2)) 0
                \<lparr>minLength = 0, maxLength = 3, cc_difficulty = D1\<rparr>)))) \<le> 3"
    by simp
  from th two have "previousResult (steps (fst (generateChain (rand_const (1 / 2)) 0
                \<lparr>minLength = 0, maxLength = 3, cc_difficulty = D1\<rparr>)) ! Suc 0)
       = result (steps (fst (generateChain (rand_const (1 / 2)) 0
                \<lparr>minLength = 0, maxLength = 3, cc_difficulty = D1\<rparr>)) ! 0)"
    by blast
  with len ok two show ?thesis by simp
qed

section \<open>Generated divisibility problems\<close>

lemma div_ranges_facts:
  "rmin (divisorRange (div_difficultyRanges d)) \<le> rmax (divisorRange (div_difficultyRanges d))"
  "2 \<le> rmin (divisorRange (div_difficultyRanges d))"
  "rmax (divisorRange (div_difficultyRanges d)) \<le> 50"
  "rmin (dividendRange (div_difficultyRanges d)) \<le> rmax (dividendRange (div_difficultyRanges d))"
  "10 \<le> rmin (dividendRange (div_difficultyRanges d))"
  "rmax (dividendRange (div_difficultyRanges d)) \<le> 999"
  by (cases d; simp)+

lemma remainder_loop_range:
  "rand_ok rs \<Longrightarrow> rmin rg \<le> rmax rg \<Longrightarrow>
   rmin rg \<le> fst (remainder_loop rs rg dv attempts p)
   \<and> fst (remainder_loop rs rg dv attempts p) \<le> rmax rg"
proof (induction rs rg dv attempts p rule: remainder_loop.induct)
  case (1 rs rg dv attempts p)
  show ?case
  proof (cases "js_rem (randomInt (rmin rg) (rmax rg) (rs p)) dv = 0 \<and> attempts + 1 < 50")
    case True
    have step: "remainder_loop rs rg dv attempts p = remainder_loop rs rg dv (attempts + 1) (p + 1)"
      using True by (subst remainder_loop.simps) simp
    show ?thesis unfolding step using "1.IH"[OF True "1.prems"] .
  next
    case False
    have r: "is_double (rs p)" "0 \<le> rs p" "rs p < 1"
      using rand_okD[OF "1.prems"(1)] by auto
    have stop: "remainder_loop rs rg dv attempts p
                  = (randomInt (rmin rg) (rmax rg) (rs p), attempts + 1, p + 1)"
      using False by (subst remainder_loop.simps) auto
    show ?thesis unfolding stop using randomInt_range[OF r "1.prems"(2)] by simp
  qed
qed

lemma remainder_loop_attempts:
  "attempts < 50 \<Longrightarrow>
   fst (snd (remainder_loop rs rg dv attempts p)) \<le> 50
   \<and> attempts < fst (snd (remainder_loop rs rg dv attempts p))
   \<and> snd (snd (remainder_loop rs rg dv attempts p))
       = p + (fst (snd (remainder_loop rs rg dv attempts p)) - attempts)"
proof (induction rs rg dv attempts p rule: remainder_loop.induct)
  case (1 rs rg dv attempts p)
  show ?case
  proof (cases "js_rem (randomInt (rmin rg) (rmax rg) (rs p)) dv = 0 \<and> attempts + 1 < 50")
    case True
    have step: "remainder_loop rs rg dv attempts p = remainder_loop rs rg dv (attempts + 1) (p + 1)"
      using True by (subst remainder_loop.simps) simp
    show ?thesis unfolding step using "1.IH"[OF True] True by auto
  next
    case False
    have stop: "remainder_loop rs rg dv attempts p
                  = (randomInt (rmin rg) (rmax rg) (rs p), attempts + 1, p + 1)"
      using False by (subst remainder_loop.simps) auto
    show ?thesis unfolding stop using "1.prems" by simp
  qed
qed

lemma exact_problem_ok:
  assumes "rand_ok rs"
  shows "dividend (fst (generateExactDivisibilityProblem rs p d))
           = divisor (fst (generateExactDivisibilityProblem rs p d))
             * quotient (fst (generateExactDivisibilityProblem rs p d))"
    and "remainder (fst (generateExactDivisibilityProblem rs p d)) = 0"
    and "negativeRemainder (fst (generateExactDivisibilityProblem rs p d)) = 0"
    and "isDivisible (fst (generateExactDivisibilityProblem rs p d))"
    and "0 < divisor (fst (generateExactDivisibilityProblem rs p d))"
proof -
  have r: "is_double (rs p)" "0 \<le> rs p" "rs p < 1"
    using rand_okD[OF assms] by auto
  have "2 \<le> randomInt (rmin (divisorRange (div_difficultyRanges d)))
               (rmax (divisorRange (div_difficultyRanges d))) (rs p)"
    using randomInt_range(1)[OF r div_ranges_facts(1)[of d]]
      div_ranges_facts(2)[of d] by linarith
  then show "0 < divisor (fst (generateExactDivisibilityProblem rs p d))"
    by (simp add: generateExactDivisibilityProblem_def Let_def)
qed (simp_all add: generateExactDivisibilityProblem_def Let_def)

lemma remainder_problem_ok:
  assumes "rand_ok rs"
  shows "dividend (fst (generateRemainderProblem rs p d))
           = divisor (fst (generateRemainderProblem rs p d))
             * quotient (fst (generateRemainderProblem rs p d))
             + remainder (fst (generateRemainderProblem rs p d))"
    and "0 < remainder (fst (generateRemainderProblem rs p d))"
    and "remainder (fst (generateRemainderProblem rs p d))
           < divisor (fst (generateRemainderProblem rs p d))"
    and "negativeRemainder (fst (generateRemainderProblem rs p d))
           = remainder (fst (generateRemainderProblem rs p d))
             - divisor (fst (generateRemainderProblem rs p d))"
    and "\<not> isDivisible (fst (generateRemainderProblem rs p d))"
proof -
  define config where "config = div_difficultyRanges d"
  define dv where
    "dv = randomInt (rmin (divisorRange config)) (rmax (divisorRange config)) (rs p)"
  define L where "L = remainder_loop rs (dividendRange config) dv 0 (p + 1)"
  define dd0 where "dd0 = fst L"
  define p1 where "p1 = snd (snd L)"
  define dd where "dd = (if js_rem dd0 dv = 0 then dd0 + randomInt 1 (dv - 1) (rs p1) else dd0)"
  have r: "is_double (rs i)" "0 \<le> rs i" "rs i < 1" for i
    using rand_okD[OF assms] by auto
  have dv_range: "2 \<le> dv" "dv \<le> 50"
    using randomInt_range[OF r div_ranges_facts(1)[of d], of p]
      div_ranges_facts(2,3)[of d] by (simp_all add: dv_def config_def)
  have dd0_range: "10 \<le> dd0" "dd0 \<le> 999"
    using remainder_loop_range[OF assms div_ranges_facts(4), of d dv 0 "p + 1"]
      div_ranges_facts(5,6)[of d] by (simp_all add: dd0_def L_def config_def)
  have rem0: "js_rem dd0 dv = dd0 mod dv"
    using dd0_range dv_range by (intro js_rem_pos) simp_all
  have dd_all: "10 \<le> dd \<and> dd \<le> 1048 \<and> dd mod dv \<noteq> 0"
  proof -
    show ?thesis
    proof (cases "js_rem dd0 dv = 0")
      case True
      define off where "off = randomInt 1 (dv - 1) (rs p1)"
      have off: "1 \<le> off" "off \<le> dv - 1"
        using randomInt_range[OF r, of 1 "dv - 1" p1] dv_range
        by (simp_all add: off_def)
      have dd_eq: "dd = dd0 + off" using True by (simp add: dd_def off_def)
      have "dd0 mod dv = 0" using True rem0 by simp
      then have "(dd0 + off) mod dv = off mod dv" by (simp add: mod_add_left_eq[symmetric])
      also have "\<dots> = off" using off by simp
      finally have "dd mod dv = off" by (simp add: dd_eq)
      then show ?thesis
        using off dd0_range dv_range by (simp add: dd_eq)
    next
      case False
      then show ?thesis
        using dd0_range rem0 by (simp add: dd_def)
    qed
  qed
  then have dd_range: "10 \<le> dd" "dd \<le> 1048" and dd_mod: "dd mod dv \<noteq> 0"
    by simp_all
  have rem: "js_rem dd dv = dd mod dv"
    using dd_range dv_range by (intro js_rem_pos) simp_all
  have quo: "\<lfloor>fdiv (of_int dd) (of_int dv)\<rfloor> = dd div dv"
    unfolding fdiv_def using dd_range dv_range by (intro floor_fl_div) simp_all
  have L_eq: "remainder_loop rs (dividendRange config) dv 0 (p + 1) = (dd0, fst (snd L), p1)"
    by (simp add: dd0_def p1_def L_def)
  have prob: "fst (generateRemainderProblem rs p d) =
      \<lparr>dividend = dd, divisor = dv, quotient = dd div dv, remainder = dd mod dv,
       negativeRemainder = (if dd mod dv > 0 then dd mod dv - dv else 0),
       isDivisible = False, dp_difficulty = d\<rparr>"
  proof (cases "js_rem dd0 dv = 0")
    case True
    show ?thesis
      unfolding generateRemainderProblem_def Let_def config_def[symmetric] dv_def[symmetric] L_eq
      using True rem quo by (simp add: dd_def)
  next
    case False
    show ?thesis
      unfolding generateRemainderProblem_def Let_def config_def[symmetric] dv_def[symmetric] L_eq
      using False rem quo by (simp add: dd_def)
  qed
  have pos: "0 < dd mod dv" using dd_mod dv_range
    by (metis less_le pos_mod_sign zero_less_numeral order_less_le_trans)
  show "dividend (fst (generateRemainderProblem rs p d))
           = divisor (fst (generateRemainderProblem rs p d))
             * quotient (fst (generateRemainderProblem rs p d))
             + remainder (fst (generateRemainderProblem rs p d))"
    by (simp add: prob)
  show "0 < remainder (fst (generateRemainderProblem rs p d))"
    using pos by (simp add: prob)
  show "remainder (fst (generateRemainderProblem rs p d))
           < divisor (fst (generateRemainderProblem rs p d))"
    using dv_range by (simp add: prob)
  show "negativeRemainder (fst (generateRemainderProblem rs p d))
           = remainder (fst (generateRemainderProblem rs p d))
             - divisor (fst (generateRemainderProblem rs p d))"
    using pos by (simp add: prob)
  show "\<not> isDivisible (fst (generateRemainderProblem rs p d))"
    by (simp add: prob)
qed

text \<open>
  Claim C1. On every random source, every problem returned by
  \<open>generateDivisibilityProblem\<close>, from the exact branch, from the remainder branch or
  from the forced adjustment after 50 attempts, satisfies \<open>dividend = divisor *
  quotient + remainder\<close> and \<open>0 \<le> remainder < divisor\<close>; its negative remainder is
  \<open>remainder - divisor\<close> when the remainder is positive and 0 otherwise; and it is
  flagged divisible exactly when the remainder is 0.
\<close>

theorem generateDivisibilityProblem_invariant:
  assumes "rand_ok rs"
  shows "dividend (fst (generateDivisibilityProblem rs p config))
           = divisor (fst (generateDivisibilityProblem rs p config))
             * quotient (fst (generateDivisibilityProblem rs p config))
             + remainder (fst (generateDivisibilityProblem rs p config))
       \<and> 0 \<le> remainder (fst (generateDivisibilityProblem rs p config))
       \<and> remainder (fst (generateDivisibilityProblem rs p config))
           < divisor (fst (generateDivisibilityProblem rs p config))
       \<and> negativeRemainder (fst (generateDivisibilityProblem rs p config))
           = (if remainder (fst (generateDivisibilityProblem rs p config)) > 0
              then remainder (fst (generateDivisibilityProblem rs p config))
                   - divisor (fst (generateDivisibilityProblem rs p config))
              else 0)
       \<and> (isDivisible (fst (generateDivisibilityProblem rs p config))
            \<longleftrightarrow> remainder (fst (generateDivisibilityProblem rs p config)) = 0)"
proof -
  have "generateDivisibilityProblem rs p config =
          (if includeExactDivisibility config \<and> rs p < fl (3 / 10)
           then generateExactDivisibilityProblem rs (p + 1) (dc_difficulty config)
           else generateRemainderProblem rs (if includeExactDivisibility config then p + 1 else p)
                  (dc_difficulty config))"
    by (simp add: generateDivisibilityProblem_def)
  then consider
    (exact) p1 where "generateDivisibilityProblem rs p config
                        = generateExactDivisibilityProblem rs p1 (dc_difficulty config)"
  | (rem) p1 where "generateDivisibilityProblem rs p config
                        = generateRemainderProblem rs p1 (dc_difficulty config)"
    by (cases "includeExactDivisibility config \<and> rs p < fl (3 / 10)") auto
  then show ?thesis
  proof cases
    case exact
    show ?thesis unfolding exact using exact_problem_ok[OF assms, of p1 "dc_difficulty config"]
      by simp
  next
    case rem
    show ?thesis unfolding rem using remainder_problem_ok[OF assms, of p1 "dc_difficulty config"]
      by simp
  qed
qed

lemma generateDivisibilityProblem_example:
  "fst (generateDivisibilityProblem (rand_const (1 / 2)) 0
          \<lparr>dc_difficulty = D2, remainderType = Positive, includeExactDivisibility = True\<rparr>)
     = \<lparr>dividend = 63, divisor = 6, quotient = 10, remainder = 3, negativeRemainder = - 3,
        isDivisible = False, dp_difficulty = D2\<rparr>"
  by code_simp

theorem generateDivisibilityProblem_invariant_witness:
  "rand_ok (rand_const (1 / 2))
   \<and> dividend (fst (generateDivisibilityProblem (rand_const (1 / 2)) 0
          \<lparr>dc_difficulty = D2, remainderType = Positive, includeExactDivisibility = True\<rparr>))
       = divisor (fst (generateDivisibilityProblem (rand_const (1 / 2)) 0
          \<lparr>dc_difficulty = D2, remainderType = Positive, includeExactDivisibility = True\<rparr>))
         * quotient (fst (generateDivisibilityProblem (rand_const (1 / 2)) 0
          \<lparr>dc_difficulty = D2, remainderType = Positive, includeExactDivisibility = True\<rparr>))
         + remainder (fst (generateDivisibilityProblem (rand_const (1 / 2)) 0
          \<lparr>dc_difficulty = D2, remainderType = Positive, includeExactDivisibility = True\<rparr>))
   \<and> remainder (fst (generateDivisibilityProblem (rand_const (1 / 2)) 0
          \<lparr>dc_difficulty = D2, remainderType = Positive, includeExactDivisibility = True\<rparr>))
       < divisor (fst (generateDivisibilityProblem (rand_const (1 / 2)) 0
          \<lparr>dc_difficulty = D2, remainderType = Positive, includeExactDivisibility = True\<rparr>))"
proof -
  have ok: "rand_ok (rand_const (1 / 2))"
    by (rule rand_ok_const[OF is_double_half]) simp_all
  from generateDivisibilityProblem_invariant[OF ok, of 0
      "\<lparr>dc_difficulty = D2, remainderType = Positive, includeExactDivisibility = True\<rparr>"] ok
  show ?thesis by blast
qed

section \<open>Retry loops\<close>

lemma percentage_sample_zero_D4: "percentage_sample (rand_const 0) p D4 = (30, 60, 50)"
proof -
  have "percentage_sample (rand_const 0) 0 D4 = (30, 60, 50)" by code_simp
  moreover have "percentage_sample (rand_const 0) p D4 = percentage_sample (rand_const 0) 0 D4"
    by (simp add: percentage_sample_def rand_const_def)
  ultimately show ?thesis by simp
qed

lemma percentage_never_returns:
  assumes "generatePercentageProblem rs p d = Some y"
  shows "\<not> (rs = rand_const 0 \<and> d = D4)"
proof (rule generatePercentageProblem.raw_induct
    [where P = "\<lambda>rs p d y. \<not> (rs = rand_const 0 \<and> d = D4)", OF _ assms])
  fix gen :: "rand \<Rightarrow> nat \<Rightarrow> Difficulty \<Rightarrow> (PercentageProblem \<times> nat) option"
  fix rs p d y
  assume IH: "\<And>rs p d y. gen rs p d = Some y \<Longrightarrow> \<not> (rs = rand_const 0 \<and> d = D4)"
  assume eq: "(case percentage_sample rs p d of
        (num, den, percentage) \<Rightarrow>
          if percentage_rejected d percentage then gen rs (p + 2) d
          else Some (\<lparr>pp_numerator = num, pp_denominator = den,
                      pp_question = show_int num @ ''/'' @ show_int den,
                      pp_answer = percentage, pp_difficulty = d,
                      pp_decimalPlaces = pc_decimalPlaces (pct_DIFFICULTY_CONFIG d)\<rparr>, p + 2))
       = Some y"
  show "\<not> (rs = rand_const 0 \<and> d = D4)"
  proof
    assume a: "rs = rand_const 0 \<and> d = D4"
    then have "gen (rand_const 0) (p + 2) D4 = Some y"
      using eq by (simp add: percentage_sample_zero_D4 percentage_rejected_def)
    then show False using IH by blast
  qed
qed

text \<open>
  Claim C4, as the specification states it, fails for the percentage engine: its loop
  counts no attempts and has no fallback. On the random source that always returns
  0, difficulty 4 samples 30/60 = 50 percent at every pass, which the loop rejects, so
  the call never returns.
\<close>

theorem generatePercentageProblem_counterexample:
  "generatePercentageProblem (rand_const 0) 0 D4 = None"
proof (cases "generatePercentageProblem (rand_const 0) 0 D4")
  case None
  then show ?thesis .
next
  case (Some y)
  then show ?thesis using percentage_never_returns[OF Some] by simp
qed

lemma ratio_attempt_draws: "snd (snd (snd (ratio_attempt rs p d))) \<le> p + 7"
  by (simp add: ratio_attempt_def Let_def split: prod.splits if_splits)

lemma ratio_loop_attempts:
  "attempts < maxAttempts \<Longrightarrow>
   fst (snd (snd (snd (ratio_loop rs d attempts p)))) \<le> maxAttempts
   \<and> attempts < fst (snd (snd (snd (ratio_loop rs d attempts p))))
   \<and> snd (snd (snd (snd (ratio_loop rs d attempts p))))
       \<le> p + 7 * (fst (snd (snd (snd (ratio_loop rs d attempts p)))) - attempts)"
proof (induction rs d attempts p rule: ratio_loop.induct)
  case (1 rs d attempts p)
  obtain a b pd p' where att: "ratio_attempt rs p d = (a, b, pd, p')"
    by (metis prod_cases4)
  have p': "p' \<le> p + 7" using ratio_attempt_draws[of rs p d] by (simp add: att)
  show ?case
  proof (cases "ratio_unacceptable d a b pd \<and> attempts + 1 < maxAttempts")
    case True
    have step: "ratio_loop rs d attempts p = ratio_loop rs d (attempts + 1) p'"
      using True by (subst ratio_loop.simps) (simp add: att)
    have "attempts + 1 < maxAttempts" using True by simp
    from "1.IH"[OF att[symmetric] refl refl True this] p'
    show ?thesis unfolding step by auto
  next
    case False
    have stop: "ratio_loop rs d attempts p = (a, b, pd, attempts + 1, p')"
      using False by (subst ratio_loop.simps) (auto simp: att)
    show ?thesis unfolding stop using "1.prems" p' by simp
  qed
qed

lemma generatePercentageProblem_rejected:
  "percentage_rejected d (snd (snd (percentage_sample rs p d))) \<Longrightarrow>
   generatePercentageProblem rs p d = generatePercentageProblem rs (p + 2) d"
  by (subst generatePercentageProblem.simps) (auto split: prod.splits)

lemma generatePercentageProblem_accepted:
  assumes "\<not> percentage_rejected d (snd (snd (percentage_sample rs p d)))"
  shows "generatePercentageProblem rs p d \<noteq> None
   \<and> snd (the (generatePercentageProblem rs p d)) = p + 2
   \<and> pp_answer (fst (the (generatePercentageProblem rs p d)))
       = snd (snd (percentage_sample rs p d))"
proof -
  obtain num den pct where sm: "percentage_sample rs p d = (num, den, pct)"
    by (metis prod_cases3)
  have "generatePercentageProblem rs p d =
          Some (\<lparr>pp_numerator = num, pp_denominator = den,
                  pp_question = show_int num @ ''/'' @ show_int den,
                  pp_answer = pct, pp_difficulty = d,
                  pp_decimalPlaces = pc_decimalPlaces (pct_DIFFICULTY_CONFIG d)\<rparr>, p + 2)"
    using assms by (subst generatePercentageProblem.simps) (simp add: sm)
  then show ?thesis by (simp add: sm)
qed

lemma percentage_accepted_returns:
  "\<not> percentage_rejected d (snd (snd (percentage_sample rs (p + 2 * k) d))) \<Longrightarrow>
   generatePercentageProblem rs p d \<noteq> None"
proof (induction k arbitrary: p)
  case 0
  then show ?case using generatePercentageProblem_accepted[of d rs p] by simp
next
  case (Suc k)
  show ?case
  proof (cases "percentage_rejected d (snd (snd (percentage_sample rs p d)))")
    case True
    have "\<not> percentage_rejected d (snd (snd (percentage_sample rs ((p + 2) + 2 * k) d)))"
      using Suc.prems by (simp add: add.assoc)
    then have "generatePercentageProblem rs (p + 2) d \<noteq> None" by (rule Suc.IH)
    then show ?thesis by (simp add: generatePercentageProblem_rejected[OF True])
  next
    case False
    then show ?thesis using generatePercentageProblem_accepted[of d rs p] by simp
  qed
qed

lemma percentage_returns_accepted:
  assumes "generatePercentageProblem rs p d = Some y"
  shows "\<exists>k. \<not> percentage_rejected d (snd (snd (percentage_sample rs (p + 2 * k) d)))
           \<and> (\<forall>j<k. percentage_rejected d (snd (snd (percentage_sample rs (p + 2 * j) d))))
           \<and> snd y = p + 2 * k + 2
           \<and> pp_answer (fst y) = snd (snd (percentage_sample rs (p + 2 * k) d))"
proof (rule generatePercentageProblem.raw_induct
    [where P = "\<lambda>rs p d y.
       \<exists>k. \<not> percentage_rejected d (snd (snd (percentage_sample rs (p + 2 * k) d)))
           \<and> (\<forall>j<k. percentage_rejected d (snd (snd (percentage_sample rs (p + 2 * j) d))))
           \<and> snd y = p + 2 * k + 2
           \<and> pp_answer (fst y) = snd (snd (percentage_sample rs (p + 2 * k) d))",
     OF _ assms])
  fix gen :: "rand \<Rightarrow> nat \<Rightarrow> Difficulty \<Rightarrow> (PercentageProblem \<times> nat) option"
  fix rs p d y
  assume IH: "\<And>rs p d y. gen rs p d = Some y \<Longrightarrow>
       \<exists>k. \<not> percentage_rejected d (snd (snd (percentage_sample rs (p + 2 * k) d)))
           \<and> (\<forall>j<k. percentage_rejected d (snd (snd (percentage_sample rs (p + 2 * j) d))))
           \<and> snd y = p + 2 * k + 2
           \<and> pp_answer (fst y) = snd (snd (percentage_sample rs (p + 2 * k) d))"
  assume eq: "(case percentage_sample rs p d of
        (num, den, percentage) \<Rightarrow>
          if percentage_rejected d percentage then gen rs (p + 2) d
          else Some (\<lparr>pp_numerator = num, pp_denominator = den,
                      pp_question = show_int num @ ''/'' @ show_int den,
                      pp_answer = percentage, pp_difficulty = d,
                      pp_decimalPlaces = pc_decimalPlaces (pct_DIFFICULTY_CONFIG d)\<rparr>, p + 2))
       = Some y"
  show "\<exists>k. \<not> percentage_rejected d (snd (snd (percentage_sample rs (p + 2 * k) d)))
           \<and> (\<forall>j<k. percentage_rejected d (snd (snd (percentage_sample rs (p + 2 * j) d))))
           \<and> snd y = p + 2 * k + 2
           \<and> pp_answer (fst y) = snd (snd (percentage_sample rs (p + 2 * k) d))"
  proof (cases "percentage_rejected d (snd (snd (percentage_sample rs p d)))")
    case True
    then have "gen rs (p + 2) d = Some y" using eq by (simp split: prod.splits)
    from IH[OF this] obtain k where
      k: "\<not> percentage_rejected d (snd (snd (percentage_sample rs (p + 2 + 2 * k) d)))"
         "\<forall>j<k. percentage_rejected d (snd (snd (percentage_sample rs (p + 2 + 2 * j) d)))"
         "snd y = p + 2 + 2 * k + 2"
         "pp_answer (fst y) = snd (snd (percentage_sample rs (p + 2 + 2 * k) d))"
      by blast
    have idx: "p + 2 + 2 * j = p + 2 * Suc j" for j by simp
    have "\<forall>j<Suc k. percentage_rejected d (snd (snd (percentage_sample rs (p + 2 * j) d)))"
    proof (intro allI impI)
      fix j assume "j < Suc k"
      then show "percentage_rejected d (snd (snd (percentage_sample rs (p + 2 * j) d)))"
        using True k(2) by (cases j) (simp_all add: idx)
    qed
    then show ?thesis using k(1,3,4) unfolding idx by (intro exI[of _ "Suc k"]) simp
  next
    case False
    then show ?thesis using eq by (intro exI[of _ 0]) (auto split: prod.splits)
  qed
qed

lemma percentage_none_iff:
  "generatePercentageProblem rs p d = None \<longleftrightarrow>
     (\<forall>k. percentage_rejected d (snd (snd (percentage_sample rs (p + 2 * k) d))))"
proof
  assume "generatePercentageProblem rs p d = None"
  then show "\<forall>k. percentage_rejected d (snd (snd (percentage_sample rs (p + 2 * k) d)))"
    using percentage_accepted_returns[of d rs p] by blast
next
  assume all: "\<forall>k. percentage_rejected d (snd (snd (percentage_sample rs (p + 2 * k) d)))"
  show "generatePercentageProblem rs p d = None"
  proof (cases "generatePercentageProblem rs p d")
    case None
    then show ?thesis .
  next
    case (Some y)
    then show ?thesis using percentage_returns_accepted[OF Some] all by blast
  qed
qed

lemma fallback_at_100: "Math_round (fmul 100 (fadd 1 (fdiv (1 / 2) 100))) = 100"
  by code_simp

lemma percentage_sample_half_D1:
  "\<not> percentage_rejected D1 (snd (snd (percentage_sample (rand_const (1 / 2)) 0 D1)))"
  by code_simp

text \<open>
  Claim C4, amended. The retry loops of the ratio engine and of the divisibility engine
  are bounded: the ratio loop makes at most 100 attempts, drawing at most 7 random
  numbers in each, and the divisibility loop draws at most 50 dividends. After the
  ratio loop has used all its attempts, ratio B is replaced by the deterministic
  construction \<open>Math.round(A.numerator * (1 + minDiffPercent / 100)) / A.denominator\<close>,
  the quotient, the sum and the product computed in binary64 arithmetic (for a
  numerator of 100 at difficulty 5 the rounded product is 100); after the
  divisibility loop, a dividend that is still divisible is increased by an offset
  drawn from \<open>[1, divisor - 1]\<close>. Both engines are total functions of the random source.
  The percentage engine's loop has no bound on its attempts and no fallback: a call
  returns exactly when some sample is accepted, with the first accepted sample, and
  never returns when every sample is rejected.
\<close>

theorem retry_loops_bounded:
  "fst (snd (snd (snd (ratio_loop rs d 0 p)))) \<le> 100
   \<and> snd (snd (snd (snd (ratio_loop rs d 0 p))))
       \<le> p + 7 * fst (snd (snd (snd (ratio_loop rs d 0 p))))
   \<and> fst (snd (remainder_loop rs rg dv 0 q)) \<le> 50
   \<and> snd (snd (remainder_loop rs rg dv 0 q)) = q + fst (snd (remainder_loop rs rg dv 0 q))
   \<and> {ratioA (fst (generateRatioComparison rs p d)),
       ratioB (fst (generateRatioComparison rs p d))}
       = {fst (ratio_loop rs d 0 p),
          if fst (snd (snd (snd (ratio_loop rs d 0 p)))) \<ge> 100
          then createRatio
                 (Math_round (fmul (of_int (numerator (fst (ratio_loop rs d 0 p))))
                    (fadd 1 (fdiv (minDiffPercent (ratio_DIFFICULTY_CONFIG d)) 100))))
                 (denominator (fst (ratio_loop rs d 0 p)))
          else fst (snd (ratio_loop rs d 0 p))}
   \<and> Math_round (fmul 100 (fadd 1 (fdiv (minDiffPercent (ratio_DIFFICULTY_CONFIG D5)) 100)))
       = 100
   \<and> dividend (fst (generateRemainderProblem rs q d))
       = (let dv' = randomInt (rmin (divisorRange (div_difficultyRanges d)))
                      (rmax (divisorRange (div_difficultyRanges d))) (rs q);
              l = remainder_loop rs (dividendRange (div_difficultyRanges d)) dv' 0 (q + 1)
          in if js_rem (fst l) dv' = 0
             then fst l + randomInt 1 (dv' - 1) (rs (snd (snd l)))
             else fst l)
   \<and> (generatePercentageProblem rs p d = None \<longleftrightarrow>
        (\<forall>k. percentage_rejected d (snd (snd (percentage_sample rs (p + 2 * k) d)))))
   \<and> (\<forall>y. generatePercentageProblem rs p d = Some y \<longrightarrow>
        (\<exists>k. \<not> percentage_rejected d (snd (snd (percentage_sample rs (p + 2 * k) d)))
           \<and> (\<forall>j<k. percentage_rejected d (snd (snd (percentage_sample rs (p + 2 * j) d))))
           \<and> snd y = p + 2 * k + 2
           \<and> pp_answer (fst y) = snd (snd (percentage_sample rs (p + 2 * k) d))))"
proof (intro conjI)
  have m: "0 < maxAttempts" by (simp add: maxAttempts_def)
  show "fst (snd (snd (snd (ratio_loop rs d 0 p)))) \<le> 100"
    using ratio_loop_attempts[OF m, of rs d p] by (simp add: maxAttempts_def)
  show "snd (snd (snd (snd (ratio_loop rs d 0 p))))
          \<le> p + 7 * fst (snd (snd (snd (ratio_loop rs d 0 p))))"
    using ratio_loop_attempts[OF m, of rs d p] by simp
  show "fst (snd (remainder_loop rs rg dv 0 q)) \<le> 50"
    using remainder_loop_attempts[of 0 rs rg dv q] by simp
  show "snd (snd (remainder_loop rs rg dv 0 q)) = q + fst (snd (remainder_loop rs rg dv 0 q))"
    using remainder_loop_attempts[of 0 rs rg dv q] by simp
  show "{ratioA (fst (generateRatioComparison rs p d)),
         ratioB (fst (generateRatioComparison rs p d))}
       = {fst (ratio_loop rs d 0 p),
          if fst (snd (snd (snd (ratio_loop rs d 0 p)))) \<ge> 100
          then createRatio
                 (Math_round (fmul (of_int (numerator (fst (ratio_loop rs d 0 p))))
                    (fadd 1 (fdiv (minDiffPercent (ratio_DIFFICULTY_CONFIG d)) 100))))
                 (denominator (fst (ratio_loop rs d 0 p)))
          else fst (snd (ratio_loop rs d 0 p))}"
    by (auto simp: generateRatioComparison_def ratio_finish_def Let_def maxAttempts_def
        split: prod.splits)
  show "Math_round (fmul 100 (fadd 1 (fdiv (minDiffPercent (ratio_DIFFICULTY_CONFIG D5)) 100)))
       = 100"
    by (simp add: fallback_at_100)
  show "dividend (fst (generateRemainderProblem rs q d))
       = (let dv' = randomInt (rmin (divisorRange (div_difficultyRanges d)))
                      (rmax (divisorRange (div_difficultyRanges d))) (rs q);
              l = remainder_loop rs (dividendRange (div_difficultyRanges d)) dv' 0 (q + 1)
          in if js_rem (fst l) dv' = 0
             then fst l + randomInt 1 (dv' - 1) (rs (snd (snd l)))
             else fst l)"
    by (simp add: generateRemainderProblem_def Let_def split: prod.splits)
  show "generatePercentageProblem rs p d = None \<longleftrightarrow>
        (\<forall>k. percentage_rejected d (snd (snd (percentage_sample rs (p + 2 * k) d))))"
    by (rule percentage_none_iff)
  show "\<forall>y. generatePercentageProblem rs p d = Some y \<longrightarrow>
        (\<exists>k. \<not> percentage_rejected d (snd (snd (percentage_sample rs (p + 2 * k) d)))
           \<and> (\<forall>j<k. percentage_rejected d (snd (snd (percentage_sample rs (p + 2 * j) d))))
           \<and> snd y = p + 2 * k + 2
           \<and> pp_answer (fst y) = snd (snd (percentage_sample rs (p + 2 * k) d)))"
    using percentage_returns_accepted by blast
qed

theorem retry_loops_bounded_witness:
  "\<not> percentage_rejected D1 (snd (snd (percentage_sample (rand_const (1 / 2)) 0 D1)))
   \<and> generatePercentageProblem (rand_const (1 / 2)) 0 D1 \<noteq> None
   \<and> snd (the (generatePercentageProblem (rand_const (1 / 2)) 0 D1)) = 2"
proof -
  note th = retry_loops_bounded[of "rand_const (1 / 2)" D1 0]
  have acc: "\<not> percentage_rejected D1 (snd (snd (percentage_sample (rand_const (1 / 2)) (0 + 2 * 0) D1)))"
    using percentage_sample_half_D1 by simp
  from th acc have some: "generatePercentageProblem (rand_const (1 / 2)) 0 D1 \<noteq> None"
    by blast
  then obtain y where y: "generatePercentageProblem (rand_const (1 / 2)) 0 D1 = Some y"
    by blast
  from th y obtain k where
    k: "\<forall>j<k. percentage_rejected D1 (snd (snd (percentage_sample (rand_const (1 / 2)) (0 + 2 * j) D1)))"
       "snd y = 0 + 2 * k + 2"
    by blast
  have "k = 0"
  proof (rule ccontr)
    assume "k \<noteq> 0"
    then have "0 < k" by simp
    with k(1) acc show False by blast
  qed
  with k(2) y some percentage_sample_half_D1 show ?thesis by simp
qed

section \<open>A tie in the ratio engine\<close>

lemma rand_ok_cycle:
  assumes "xs \<noteq> []" and "\<forall>x\<in>set xs. is_double x \<and> 0 \<le> x \<and> x < 1"
  shows "rand_ok (rand_cycle xs)"
proof -
  have "xs ! (i mod length xs) \<in> set xs" for i
    using assms(1) by (intro nth_mem) simp
  then show ?thesis using assms(2) by (simp add: rand_ok_def rand_cycle_def)
qed

lemma is_double_1023: "is_double (1023 / 1024)"
  unfolding is_double_def by code_simp

lemma tie_source_ok:
  "rand_ok (rand_cycle [0, 1023 / 1024, 1023 / 1024, 1023 / 1024, 1023 / 1024])"
  by (rule rand_ok_cycle) (simp_all add: is_double_0 is_double_1023)

lemma ratio_attempt_shift:
  "ratio_attempt rs (p + n) d =
     (case ratio_attempt (\<lambda>i. rs (i + n)) p d of (a, b, pd, p') \<Rightarrow> (a, b, pd, p' + n))"
  by (simp add: ratio_attempt_def Let_def add.assoc add.commute add.left_commute
      split: prod.splits)

lemma tie_source_period:
  "(\<lambda>i. rand_cycle [0, 1023 / 1024, 1023 / 1024, 1023 / 1024, 1023 / 1024] (i + 5 * k))
     = rand_cycle [0, 1023 / 1024, 1023 / 1024, 1023 / 1024, 1023 / 1024]"
  by (simp add: rand_cycle_def fun_eq_iff)

lemma tie_attempt_0:
  "ratio_attempt (rand_cycle [0, 1023 / 1024, 1023 / 1024, 1023 / 1024, 1023 / 1024]) 0 D5
     = (createRatio 100 350, createRatio 107 350,
        getPercentageDifference (createRatio 100 350) (createRatio 107 350), 5)"
  by code_simp

lemma tie_attempt:
  "ratio_attempt (rand_cycle [0, 1023 / 1024, 1023 / 1024, 1023 / 1024, 1023 / 1024]) (5 * k) D5
     = (createRatio 100 350, createRatio 107 350,
        getPercentageDifference (createRatio 100 350) (createRatio 107 350), 5 * k + 5)"
  using ratio_attempt_shift[of "rand_cycle [0, 1023 / 1024, 1023 / 1024, 1023 / 1024, 1023 / 1024]"
      0 "5 * k" D5]
  by (simp add: tie_source_period tie_attempt_0)

lemma tie_unacceptable:
  "ratio_unacceptable D5 (createRatio 100 350) (createRatio 107 350)
     (getPercentageDifference (createRatio 100 350) (createRatio 107 350))"
  by code_simp

lemma tie_loop:
  "attempts + n = 99 \<Longrightarrow>
   ratio_loop (rand_cycle [0, 1023 / 1024, 1023 / 1024, 1023 / 1024, 1023 / 1024]) D5
     attempts (5 * k)
     = (createRatio 100 350, createRatio 107 350,
        getPercentageDifference (createRatio 100 350) (createRatio 107 350),
        100, 5 * (k + n + 1))"
proof (induction n arbitrary: attempts k)
  case 0
  then show ?case
    by (subst ratio_loop.simps) (simp add: tie_attempt maxAttempts_def)
next
  case (Suc n)
  have "attempts + 1 < maxAttempts" using Suc.prems by (simp add: maxAttempts_def)
  then have "ratio_loop (rand_cycle [0, 1023 / 1024, 1023 / 1024, 1023 / 1024, 1023 / 1024]) D5
               attempts (5 * k)
             = ratio_loop (rand_cycle [0, 1023 / 1024, 1023 / 1024, 1023 / 1024, 1023 / 1024]) D5
                 (attempts + 1) (5 * (k + 1))"
    by (subst ratio_loop.simps) (simp add: tie_attempt tie_unacceptable add.commute)
  also have "\<dots> = (createRatio 100 350, createRatio 107 350,
        getPercentageDifference (createRatio 100 350) (createRatio 107 350),
        100, 5 * ((k + 1) + n + 1))"
    using Suc.prems by (intro Suc.IH) simp
  finally show ?case by simp
qed

lemma tie_finish:
  "ratio_finish (rand_cycle [0, 1023 / 1024, 1023 / 1024, 1023 / 1024, 1023 / 1024]) D5
     (createRatio 100 350, createRatio 107 350,
      getPercentageDifference (createRatio 100 350) (createRatio 107 350), 100, 500)
     = (\<lparr>ratioA = createRatio 100 350, ratioB = createRatio 100 350, correctAnswer = AnsB,
         rc_difficulty = D5, percentageDiff = 0\<rparr>, 501)"
  by code_simp

lemma ratio_loop_accepted:
  "fst (snd (snd (snd (ratio_loop rs d attempts p)))) < maxAttempts \<Longrightarrow>
   \<not> ratio_unacceptable d (fst (ratio_loop rs d attempts p))
        (fst (snd (ratio_loop rs d attempts p)))
        (fst (snd (snd (ratio_loop rs d attempts p))))"
proof (induction rs d attempts p rule: ratio_loop.induct)
  case (1 rs d attempts p)
  obtain a b pd p' where att: "ratio_attempt rs p d = (a, b, pd, p')"
    by (metis prod_cases4)
  show ?case
  proof (cases "ratio_unacceptable d a b pd \<and> attempts + 1 < maxAttempts")
    case True
    have step: "ratio_loop rs d attempts p = ratio_loop rs d (attempts + 1) p'"
      using True by (subst ratio_loop.simps) (simp add: att)
    show ?thesis
      using "1.IH"[OF att[symmetric] refl refl True] "1.prems" unfolding step by simp
  next
    case False
    have stop: "ratio_loop rs d attempts p = (a, b, pd, attempts + 1, p')"
      using False by (subst ratio_loop.simps) (auto simp: att)
    show ?thesis using False "1.prems" unfolding stop by simp
  qed
qed

text \<open>
  What does hold of \<open>generateRatioComparison\<close>: when the loop accepts a pair before
  its last attempt, the two values differ; and the answer always names ratio A exactly
  when its value is the strictly larger one.
\<close>

lemma generateRatioComparison_accepted_no_tie:
  assumes "fst (snd (snd (snd (ratio_loop rs d 0 p)))) < maxAttempts"
  shows "val (ratioA (fst (generateRatioComparison rs p d)))
           \<noteq> val (ratioB (fst (generateRatioComparison rs p d)))"
proof -
  obtain a b pd n p1 where l: "ratio_loop rs d 0 p = (a, b, pd, n, p1)"
    by (metis prod_cases5)
  have "\<not> ratio_unacceptable d a b pd"
    using ratio_loop_accepted[OF assms] by (simp add: l)
  then have "val a \<noteq> val b" by (simp add: ratio_unacceptable_def)
  moreover have "n < maxAttempts" using assms by (simp add: l)
  ultimately show ?thesis
    by (auto simp: generateRatioComparison_def ratio_finish_def l Let_def)
qed

lemma generateRatioComparison_answer:
  "correctAnswer (fst (generateRatioComparison rs p d)) = AnsA \<longleftrightarrow>
     val (ratioA (fst (generateRatioComparison rs p d)))
       > val (ratioB (fst (generateRatioComparison rs p d)))"
  by (auto simp: generateRatioComparison_def ratio_finish_def Let_def split: prod.splits)

text \<open>
  Claim C6 does not hold of the code. At difficulty 5, on the random source that
  repeats \<open>0, 1023/1024, 1023/1024, 1023/1024, 1023/1024\<close>, every attempt samples
  A = 100/350 and B = 107/350, which differ by 7 percent and are rejected. After the
  100th attempt the fallback computes \<open>Math.round(100 * (1 + 0.5 / 100))\<close>; in
  binary64 arithmetic the product is 100.49999999999999, which rounds to 100, so
  ratio B becomes 100/350 as well. The problem returned has two equal ratios and the
  answer B.
\<close>

theorem generateRatioComparison_tie:
  "fst (generateRatioComparison
          (rand_cycle [0, 1023 / 1024, 1023 / 1024, 1023 / 1024, 1023 / 1024]) 0 D5)
     = \<lparr>ratioA = createRatio 100 350, ratioB = createRatio 100 350, correctAnswer = AnsB,
        rc_difficulty = D5, percentageDiff = 0\<rparr>
   \<and> val (ratioA (fst (generateRatioComparison
          (rand_cycle [0, 1023 / 1024, 1023 / 1024, 1023 / 1024, 1023 / 1024]) 0 D5)))
     = val (ratioB (fst (generateRatioComparison
          (rand_cycle [0, 1023 / 1024, 1023 / 1024, 1023 / 1024, 1023 / 1024]) 0 D5)))"
proof -
  have "ratio_loop (rand_cycle [0, 1023 / 1024, 1023 / 1024, 1023 / 1024, 1023 / 1024]) D5
          0 (5 * 0)
        = (createRatio 100 350, createRatio 107 350,
           getPercentageDifference (createRatio 100 350) (createRatio 107 350),
           100, 5 * (0 + 99 + 1))"
    by (rule tie_loop) simp
  then have "generateRatioComparison
          (rand_cycle [0, 1023 / 1024, 1023 / 1024, 1023 / 1024, 1023 / 1024]) 0 D5
        = (\<lparr>ratioA = createRatio 100 350, ratioB = createRatio 100 350, correctAnswer = AnsB,
            rc_difficulty = D5, percentageDiff = 0\<rparr>, 501)"
    by (simp add: generateRatioComparison_def tie_finish)
  then show ?thesis by simp
qed

lemma fallback_product: "fmul 100 (fadd 1 (fdiv (1 / 2) 100)) = 7072058789855231 / 70368744177664"
  by code_simp

section \<open>Properties of the session state machines\<close>

subsection \<open>Submitting an answer without a current problem\<close>

lemma chain_submitAnswer_no_chain:
  "chain s = None \<Longrightarrow> chain_submitAnswer answer now s = (False, s)"
  by (simp add: chain_submitAnswer_def)

lemma submitDivisibilityAnswer_no_problem:
  "currentProblem s = None \<Longrightarrow> submitDivisibilityAnswer b s = (False, s)"
  by (simp add: submitDivisibilityAnswer_def)

lemma submitRemainderAnswer_no_problem:
  "currentProblem s = None \<Longrightarrow> submitRemainderAnswer r now s = (False, s)"
  by (simp add: submitRemainderAnswer_def)

text \<open>
  Claim C5 does not hold of the store of the simple modes. Its \<open>submitAnswer\<close> has no
  guard for a missing question: called on the initial state, where \<open>currentAnswer\<close> is
  \<open>null\<close>, it returns false and still counts a question, appends a session time and
  so changes the persisted statistics. The chain store and the divisibility store
  return false and leave the state unchanged, as the three lemmas above show.
\<close>

theorem game_submitAnswer_without_question:
  "currentAnswer game_initial = None
   \<and> fst (game_submitAnswer 5 1000 game_initial) = False
   \<and> totalQuestions (stats (snd (game_submitAnswer 5 1000 game_initial))) = 1
   \<and> sessionTimes (stats (snd (game_submitAnswer 5 1000 game_initial))) = [0]
   \<and> snd (game_submitAnswer 5 1000 game_initial) \<noteq> game_initial"
proof -
  have t: "fdiv 0 1000 = 0" by (simp add: fdiv_def fl_def)
  have s: "stats (snd (game_submitAnswer 5 1000 game_initial)) =
             \<lparr>totalQuestions = 1, correctAnswers = 0, currentStreak = 0, bestStreak = 0,
              averageTime = fdiv (fadd 0 0) 1, sessionTimes = [0]\<rparr>"
    by (simp add: game_submitAnswer_def game_initial_def initialStats_def elapsed_def Let_def t)
  have "stats (snd (game_submitAnswer 5 1000 game_initial)) \<noteq> stats game_initial"
    unfolding s by (simp add: game_initial_def initialStats_def)
  then have "snd (game_submitAnswer 5 1000 game_initial) \<noteq> game_initial" by auto
  then show ?thesis
    using s by (simp add: game_submitAnswer_def game_initial_def Let_def)
qed

subsection \<open>Persisted aggregates never decrease\<close>

lemma div_endGame_mono:
  "ds_totalGamesPlayed s \<le> ds_totalGamesPlayed (div_endGame s)"
  "totalProblemsAttempted s \<le> totalProblemsAttempted (div_endGame s)"
  "totalCorrectDivisibility s \<le> totalCorrectDivisibility (div_endGame s)"
  "totalCorrectRemainder s \<le> totalCorrectRemainder (div_endGame s)"
  "bestAccuracy s \<le> bestAccuracy (div_endGame s)"
  by (simp_all add: div_endGame_def Let_def)

lemma div_step_mono:
  "ds_totalGamesPlayed s \<le> ds_totalGamesPlayed (div_step rs p now a s)
   \<and> totalProblemsAttempted s \<le> totalProblemsAttempted (div_step rs p now a s)
   \<and> totalCorrectDivisibility s \<le> totalCorrectDivisibility (div_step rs p now a s)
   \<and> totalCorrectRemainder s \<le> totalCorrectRemainder (div_step rs p now a s)
   \<and> bestAccuracy s \<le> bestAccuracy (div_step rs p now a s)"
proof (cases a)
  case DNextProblem
  then show ?thesis
    using div_endGame_mono[of s]
    by (simp add: nextProblem_def split: prod.splits)
next
  case DEndGame
  then show ?thesis using div_endGame_mono[of s] by simp
next
  case (DSubmitRemainderAnswer r)
  then show ?thesis
    by (simp add: submitRemainderAnswer_def Let_def split: option.splits)
qed (simp_all add: div_setDifficulty_def div_setAcceptNegativeRemainders_def
      div_setMaxProblems_def div_startGame_def submitDivisibilityAnswer_def Let_def
      div_resetGame_def split: prod.splits option.splits)

lemma chain_record_persisted:
  "cs_totalGamesPlayed (chain_record c res now s) = cs_totalGamesPlayed s"
  "totalChainsCompleted (chain_record c res now s) = totalChainsCompleted s"
  "bestScore (chain_record c res now s) = bestScore s"
  by (simp_all add: chain_record_def Let_def)

lemma chain_step_mono:
  "cs_totalGamesPlayed s \<le> cs_totalGamesPlayed (chain_step rs p now a s)
   \<and> totalChainsCompleted s \<le> totalChainsCompleted (chain_step rs p now a s)
   \<and> bestScore s \<le> bestScore (chain_step rs p now a s)"
proof (cases a)
  case CEndGame
  then show ?thesis
    by (simp add: chain_endGame_def Let_def split: option.splits)
next
  case (CSubmitAnswer x)
  then show ?thesis
    by (simp add: chain_submitAnswer_def chain_record_persisted Let_def split: option.splits)
next
  case CSkipStep
  then show ?thesis
    by (simp add: skipStep_def chain_record_persisted Let_def split: option.splits)
qed (simp_all add: chain_setDifficulty_def chain_startGame_def nextStep_def reviewChain_def
      chain_resetGame_def split: prod.splits option.splits)

lemma game_step_mono:
  assumes "a \<noteq> GResetStats"
  shows "totalQuestions (stats s) \<le> totalQuestions (stats (game_step now a s))
       \<and> correctAnswers (stats s) \<le> correctAnswers (stats (game_step now a s))
       \<and> bestStreak (stats s) \<le> bestStreak (stats (game_step now a s))"
  using assms
  by (cases a)
     (simp_all add: game_setMode_def game_setDifficulty_def game_startGame_def game_endGame_def
        game_setQuestion_def game_submitAnswer_def Let_def)

lemma div_endGame_best:
  "bestAccuracy (div_endGame s) = max (bestAccuracy s) (getSessionAccuracy s)"
  by (simp add: div_endGame_def getSessionAccuracy_def Let_def)

lemma div_step_best:
  "bestAccuracy (div_step rs p now a s) =
     (if a = DEndGame \<or> (a = DNextProblem \<and> maxProblems s \<le> problemCount s)
      then max (bestAccuracy s) (getSessionAccuracy s) else bestAccuracy s)"
proof (cases a)
  case DNextProblem
  then show ?thesis
    by (simp add: nextProblem_def div_endGame_best split: prod.splits)
next
  case DEndGame
  then show ?thesis by (simp add: div_endGame_best)
next
  case (DSubmitRemainderAnswer r)
  then show ?thesis
    by (simp add: submitRemainderAnswer_def Let_def split: option.splits)
qed (simp_all add: div_setDifficulty_def div_setAcceptNegativeRemainders_def
      div_setMaxProblems_def div_startGame_def submitDivisibilityAnswer_def Let_def
      div_resetGame_def split: prod.splits option.splits)

lemma chain_endGame_best:
  "bestScore (chain_endGame now s) =
     (case getSessionStats now s of None \<Rightarrow> bestScore s
      | Some st \<Rightarrow> max (bestScore s) (finalScore st))"
  by (simp add: chain_endGame_def getSessionStats_def Let_def split: option.splits)

lemma chain_step_best:
  "bestScore (chain_step rs p now a s) =
     (if a = CEndGame
      then (case getSessionStats now s of None \<Rightarrow> bestScore s
            | Some st \<Rightarrow> max (bestScore s) (finalScore st))
      else bestScore s)"
proof (cases a)
  case CEndGame
  then show ?thesis by (simp add: chain_endGame_best)
next
  case (CSubmitAnswer x)
  then show ?thesis
    by (simp add: chain_submitAnswer_def chain_record_persisted Let_def split: option.splits)
next
  case CSkipStep
  then show ?thesis
    by (simp add: skipStep_def chain_record_persisted Let_def split: option.splits)
qed (simp_all add: chain_setDifficulty_def chain_startGame_def nextStep_def reviewChain_def
      chain_resetGame_def split: prod.splits option.splits)

lemma game_step_best:
  assumes "a \<noteq> GResetStats"
  shows "bestStreak (stats (game_step now a s)) =
     (case a of
        GSubmitAnswer u \<Rightarrow> max (bestStreak (stats s)) (currentStreak (stats (game_step now a s)))
      | _ \<Rightarrow> bestStreak (stats s))"
  using assms
  by (cases a)
     (simp_all add: game_setMode_def game_setDifficulty_def game_startGame_def game_endGame_def
        game_setQuestion_def game_submitAnswer_def Let_def)

lemma endGame_counts:
  "ds_totalGamesPlayed (div_endGame ds) = ds_totalGamesPlayed ds + 1"
  "cs_totalGamesPlayed (chain_endGame now cs) =
     (if getSessionStats now cs = None then cs_totalGamesPlayed cs
      else cs_totalGamesPlayed cs + 1)"
  by (simp_all add: div_endGame_def chain_endGame_def getSessionStats_def Let_def
      split: option.splits)

text \<open>
  Claim C9. Every action of the three stores other than \<open>resetStats\<close> leaves each
  persisted aggregate at least as large as it was: the totals of the simple store,
  of the divisibility store and of the chain store, and the best streak, best
  accuracy and best score. Each best field is updated by a maximum with its old
  value: the best streak becomes the maximum of itself and the new current streak
  on every submitted answer, the best accuracy the maximum of itself and the session
  accuracy when the divisibility session ends, the best score the maximum of itself
  and the final score of the session when a chain session with results ends; no
  other action changes a best field. Ending a session counts one more game played.
\<close>

theorem aggregates_monotone:
  assumes "ga \<noteq> GResetStats"
  shows "totalQuestions (stats gs) \<le> totalQuestions (stats (game_step now ga gs))
       \<and> correctAnswers (stats gs) \<le> correctAnswers (stats (game_step now ga gs))
       \<and> bestStreak (stats gs) \<le> bestStreak (stats (game_step now ga gs))
       \<and> bestStreak (stats (game_step now ga gs)) =
           (case ga of
              GSubmitAnswer u \<Rightarrow>
                max (bestStreak (stats gs)) (currentStreak (stats (game_step now ga gs)))
            | _ \<Rightarrow> bestStreak (stats gs))
       \<and> ds_totalGamesPlayed ds \<le> ds_totalGamesPlayed (div_step rs p now da ds)
       \<and> totalProblemsAttempted ds \<le> totalProblemsAttempted (div_step rs p now da ds)
       \<and> totalCorrectDivisibility ds \<le> totalCorrectDivisibility (div_step rs p now da ds)
       \<and> totalCorrectRemainder ds \<le> totalCorrectRemainder (div_step rs p now da ds)
       \<and> bestAccuracy ds \<le> bestAccuracy (div_step rs p now da ds)
       \<and> bestAccuracy (div_step rs p now da ds) =
           (if da = DEndGame \<or> (da = DNextProblem \<and> maxProblems ds \<le> problemCount ds)
            then max (bestAccuracy ds) (getSessionAccuracy ds) else bestAccuracy ds)
       \<and> ds_totalGamesPlayed (div_endGame ds) = ds_totalGamesPlayed ds + 1
       \<and> cs_totalGamesPlayed cs \<le> cs_totalGamesPlayed (chain_step rs p now ca cs)
       \<and> totalChainsCompleted cs \<le> totalChainsCompleted (chain_step rs p now ca cs)
       \<and> bestScore cs \<le> bestScore (chain_step rs p now ca cs)
       \<and> bestScore (chain_step rs p now ca cs) =
           (if ca = CEndGame
            then (case getSessionStats now cs of None \<Rightarrow> bestScore cs
                  | Some st \<Rightarrow> max (bestScore cs) (finalScore st))
            else bestScore cs)
       \<and> cs_totalGamesPlayed (chain_endGame now cs) =
           (if getSessionStats now cs = None then cs_totalGamesPlayed cs
            else cs_totalGamesPlayed cs + 1)"
  using game_step_mono[OF assms, of gs now] game_step_best[OF assms, of now gs]
    div_step_mono[of ds rs p now da] div_step_best[of rs p now da ds]
    chain_step_mono[of cs rs p now ca] chain_step_best[of rs p now ca cs]
    endGame_counts(1)[of ds] endGame_counts(2)[of now cs]
  by (intro conjI) blast+

theorem aggregates_monotone_witness:
  "GSubmitAnswer 5 \<noteq> GResetStats
   \<and> totalQuestions (stats game_initial)
       \<le> totalQuestions (stats (game_step 1000 (GSubmitAnswer 5) game_initial))
   \<and> bestStreak (stats (game_step 1000 (GSubmitAnswer 5) game_initial))
       = max (bestStreak (stats game_initial))
           (currentStreak (stats (game_step 1000 (GSubmitAnswer 5) game_initial)))
   \<and> bestScore chain_initial
       \<le> bestScore (chain_step (rand_const 0) 0 1000 CEndGame chain_initial)
   \<and> bestAccuracy (div_step (rand_const 0) 0 1000 DEndGame div_initial)
       = max (bestAccuracy div_initial) (getSessionAccuracy div_initial)"
proof -
  have h: "GSubmitAnswer 5 \<noteq> GResetStats" by simp
  from aggregates_monotone[OF h, of game_initial 1000 div_initial "rand_const 0" 0 DEndGame
      chain_initial CEndGame] h
  show ?thesis by simp
qed

subsection \<open>The step index of the chain store\<close>

lemma chain_loop_acc_length:
  "length acc \<le> length (fst (chain_loop rs d totalLen i cur acc p))"
  by (simp add: chain_loop_length)

lemma generateDefaultChain_nonempty: "0 < length (steps (fst (generateDefaultChain rs p d)))"
  by (simp add: generateDefaultChain_def generateChain_steps chain_loop_length)

lemma chain_index_ok_step:
  assumes "chain_index_ok s"
  shows "chain_index_ok (chain_step rs p now a s)"
proof (cases a)
  case CStartGame
  then show ?thesis
    using generateDefaultChain_nonempty[of rs p "cs_difficulty s"]
    by (auto simp: chain_index_ok_def chain_startGame_def split: prod.splits)
next
  case (CSubmitAnswer x)
  then show ?thesis using assms
    by (auto simp: chain_index_ok_def chain_submitAnswer_def chain_record_def Let_def
        split: option.splits)
next
  case CSkipStep
  then show ?thesis using assms
    by (auto simp: chain_index_ok_def skipStep_def chain_record_def Let_def
        split: option.splits)
next
  case CNextStep
  then show ?thesis using assms
    by (auto simp: chain_index_ok_def nextStep_def split: option.splits)
next
  case CEndGame
  then show ?thesis using assms
    by (auto simp: chain_index_ok_def chain_endGame_def Let_def split: option.splits)
qed (use assms in \<open>auto simp: chain_index_ok_def chain_setDifficulty_def reviewChain_def
      chain_resetGame_def split: option.splits\<close>)

lemma chain_reachable_index_ok: "chain_reachable s \<Longrightarrow> chain_index_ok s"
proof (induction rule: chain_reachable.induct)
  case init
  then show ?case by (simp add: chain_index_ok_def chain_initial_def)
next
  case (step s rs p now a)
  then show ?case by (simp add: chain_index_ok_step)
qed

text \<open>
  Claim C10. In every state the chain store can reach, a chain that is present has
  at least one step and the step index is below the number of steps. Submitting on
  the last step moves to the review phase and keeps the index. In any state at all,
  \<open>getCurrentStep\<close> returns \<open>null\<close> exactly when the chain is absent or the index
  is past the last step, and otherwise the step at the index.
\<close>

theorem chain_index_in_bounds:
  assumes "chain_reachable s"
  shows "(\<forall>c. chain s = Some c \<longrightarrow> currentStepIndex s < length (steps c))
       \<and> (\<forall>c answer now. chain s = Some c \<and> currentStepIndex s = length (steps c) - 1 \<longrightarrow>
             cs_phase (snd (chain_submitAnswer answer now s)) = CReview
             \<and> currentStepIndex (snd (chain_submitAnswer answer now s)) = currentStepIndex s)
       \<and> (getCurrentStep t = None \<longleftrightarrow>
             chain t = None \<or> (\<exists>c. chain t = Some c \<and> length (steps c) \<le> currentStepIndex t))
       \<and> (\<forall>c. chain t = Some c \<and> currentStepIndex t < length (steps c) \<longrightarrow>
             getCurrentStep t = Some (steps c ! currentStepIndex t))"
proof (intro conjI)
  have ok: "chain_index_ok s" by (rule chain_reachable_index_ok[OF assms])
  show "\<forall>c. chain s = Some c \<longrightarrow> currentStepIndex s < length (steps c)"
    using ok by (auto simp: chain_index_ok_def)
  show "\<forall>c answer now. chain s = Some c \<and> currentStepIndex s = length (steps c) - 1 \<longrightarrow>
             cs_phase (snd (chain_submitAnswer answer now s)) = CReview
             \<and> currentStepIndex (snd (chain_submitAnswer answer now s)) = currentStepIndex s"
  proof (intro allI impI)
    fix c answer now
    assume a: "chain s = Some c \<and> currentStepIndex s = length (steps c) - 1"
    have lt: "currentStepIndex s < length (steps c)"
      using ok a by (simp add: chain_index_ok_def)
    show "cs_phase (snd (chain_submitAnswer answer now s)) = CReview
          \<and> currentStepIndex (snd (chain_submitAnswer answer now s)) = currentStepIndex s"
      using a lt by (simp add: chain_submitAnswer_def chain_record_def Let_def)
  qed
  show "getCurrentStep t = None \<longleftrightarrow>
             chain t = None \<or> (\<exists>c. chain t = Some c \<and> length (steps c) \<le> currentStepIndex t)"
    by (auto simp: getCurrentStep_def split: option.splits)
  show "\<forall>c. chain t = Some c \<and> currentStepIndex t < length (steps c) \<longrightarrow>
             getCurrentStep t = Some (steps c ! currentStepIndex t)"
    by (auto simp: getCurrentStep_def)
qed

theorem chain_index_in_bounds_witness:
  "chain_reachable (chain_step (rand_const 0) 0 1000 CStartGame chain_initial)
   \<and> chain (chain_step (rand_const 0) 0 1000 CStartGame chain_initial) \<noteq> None
   \<and> currentStepIndex (chain_step (rand_const 0) 0 1000 CStartGame chain_initial)
       < length (steps (the (chain (chain_step (rand_const 0) 0 1000 CStartGame chain_initial))))"
proof -
  have r: "chain_reachable (chain_step (rand_const 0) 0 1000 CStartGame chain_initial)"
    by (rule chain_reachable.step[OF chain_reachable.init])
  have n: "chain (chain_step (rand_const 0) 0 1000 CStartGame chain_initial) \<noteq> None"
    by (simp add: chain_startGame_def split: prod.splits)
  from chain_index_in_bounds[OF r] r n show ?thesis by fastforce
qed

end
